theory Spec2Isabelle
  imports Main
begin

section \<open>The journal calendar widget of \<^verbatim>\<open>static/js/components/calendar.js\<close>\<close>

text \<open>
  The widget is a JavaScript class, \<^verbatim>\<open>JournalCalendar\<close>. It keeps a \<^verbatim>\<open>Date\<close> object
  (\<^verbatim>\<open>currentDate\<close>), an options object and a selected date, renders one month as a
  grid of cells into a container element, and reacts to clicks. The model has three
  layers:
  \<^item> the date arithmetic of the language's \<^verbatim>\<open>Date\<close> objects, written out from the
    abstract operations of ECMA-262 (section "Date Objects"), on which every claim
    about months, weekdays and day counts rests;
  \<^item> an independent reference calendar (leap rule, month lengths, weekday by counting
    days), against which the code's results are compared;
  \<^item> the class itself: its fields as a record, its methods as state-passing functions
    that either complete normally or throw, and its click listeners.
\<close>

subsection \<open>Date arithmetic of the language\<close>

text \<open>
  A time value is a number of milliseconds since 1 January 1970 UTC. The host's time
  zone is fixed to UTC (local time zone adjustment 0), so local time and UTC coincide.
  Numbers are modelled as integers, on which the arithmetic of the standard is exact;
  \<^verbatim>\<open>NaN\<close> is \<open>None\<close>. The arguments the widget passes to \<^verbatim>\<open>Date\<close> are integers or \<^verbatim>\<open>NaN\<close>.
\<close>

definition msPerDay :: int where
  "msPerDay = 86400000"

definition Day :: "int \<Rightarrow> int" where
  "Day t = t div msPerDay"

definition TimeWithinDay :: "int \<Rightarrow> int" where
  "TimeWithinDay t = t mod msPerDay"

definition DaysInYear :: "int \<Rightarrow> int" where
  "DaysInYear y =
     (if y mod 4 \<noteq> 0 then 365
      else if y mod 100 \<noteq> 0 then 366
      else if y mod 400 \<noteq> 0 then 365
      else 366)"

definition DayFromYear :: "int \<Rightarrow> int" where
  "DayFromYear y =
     365 * (y - 1970) + (y - 1969) div 4 - (y - 1901) div 100 + (y - 1601) div 400"

text \<open>
  \<^verbatim>\<open>YearFromTime(t)\<close> is specified as the largest year whose first day is not after
  \<open>t\<close>. It is computed by a search from the estimate \<open>1970 + d div 365\<close>: first down
  until the year starts on or before day \<open>d\<close>, then up while the next year does too.
  Both searches terminate because every year has a positive number of days.
\<close>

lemma div_step:
  assumes "0 < (n::int)"
  shows "(a + 1) div n = (if (a + 1) mod n = 0 then a div n + 1 else a div n)"
proof -
  define q where "q = a div n"
  define r where "r = a mod n"
  have a: "a = n * q + r" and r: "0 \<le> r" "r < n"
    using assms by (simp_all add: q_def r_def)
  show ?thesis
  proof (cases "r + 1 = n")
    case True
    then have e: "a + 1 = n * (q + 1) + 0" using a by (simp add: algebra_simps)
    have "(a + 1) div n = q + 1" using int_div_pos_eq [OF e] assms by simp
    moreover have "(a + 1) mod n = 0" using int_mod_pos_eq [OF e] assms by simp
    ultimately show ?thesis by (simp add: q_def)
  next
    case False
    then have lt: "r + 1 < n" using r by simp
    have e: "a + 1 = n * q + (r + 1)" using a by simp
    have "(a + 1) div n = q" using int_div_pos_eq [OF e] r lt by simp
    moreover have "(a + 1) mod n = r + 1" using int_mod_pos_eq [OF e] r lt by simp
    ultimately show ?thesis using r by (simp add: q_def)
  qed
qed

lemma mod_shift: "((y::int) - n * k) mod n = y mod n"
  by (metis mod_mult_self1 diff_conv_add_uminus mult_minus_right mult.commute)

lemma mod_shift_4: "((y::int) - 1968) mod 4 = y mod 4"
  using mod_shift [of y 4 492] by simp

lemma mod_shift_100: "((y::int) - 1900) mod 100 = y mod 100"
  using mod_shift [of y 100 19] by simp

lemma mod_shift_400: "((y::int) - 1600) mod 400 = y mod 400"
  using mod_shift [of y 400 4] by simp

lemma mod100_4: "(y::int) mod 100 = 0 \<Longrightarrow> y mod 4 = 0"
proof -
  assume "y mod 100 = 0"
  then have "100 dvd y" by (simp add: dvd_eq_mod_eq_0)
  moreover have "(4::int) dvd 100" by simp
  ultimately have "4 dvd y" by (rule dvd_trans [rotated])
  then show ?thesis by (simp add: dvd_eq_mod_eq_0)
qed

lemma mod400_100: "(y::int) mod 400 = 0 \<Longrightarrow> y mod 100 = 0"
proof -
  assume "y mod 400 = 0"
  then have "400 dvd y" by (simp add: dvd_eq_mod_eq_0)
  moreover have "(100::int) dvd 400" by simp
  ultimately have "100 dvd y" by (rule dvd_trans [rotated])
  then show ?thesis by (simp add: dvd_eq_mod_eq_0)
qed

lemma DayFromYear_Suc: "DayFromYear (y + 1) = DayFromYear y + DaysInYear y"
proof -
  have a: "(y + 1 - 1969) div 4 = (y - 1969) div 4 + (if y mod 4 = 0 then 1 else 0)"
    using div_step [of 4 "y - 1969"] mod_shift_4 [of y] by (simp add: algebra_simps)
  have b: "(y + 1 - 1901) div 100 = (y - 1901) div 100 + (if y mod 100 = 0 then 1 else 0)"
    using div_step [of 100 "y - 1901"] mod_shift_100 [of y] by (simp add: algebra_simps)
  have c: "(y + 1 - 1601) div 400 = (y - 1601) div 400 + (if y mod 400 = 0 then 1 else 0)"
    using div_step [of 400 "y - 1601"] mod_shift_400 [of y] by (simp add: algebra_simps)
  show ?thesis
    unfolding DayFromYear_def DaysInYear_def a b c
    using mod100_4 [of y] mod400_100 [of y] by auto
qed

lemma DaysInYear_cases: "DaysInYear y = 365 \<or> DaysInYear y = 366"
  by (simp add: DaysInYear_def)

lemma DaysInYear_pos: "0 < DaysInYear y"
  using DaysInYear_cases [of y] by auto

lemma DayFromYear_pred: "DayFromYear (y - 1) = DayFromYear y - DaysInYear (y - 1)"
  using DayFromYear_Suc [of "y - 1"] by simp

function year_down :: "int \<Rightarrow> int \<Rightarrow> int" where
  "year_down d y = (if d < DayFromYear y then year_down d (y - 1) else y)"
  by pat_completeness auto
termination
proof (relation "measure (\<lambda>(d, y). nat (DayFromYear y - d))")
  fix d y :: int
  assume "d < DayFromYear y"
  then show "((d, y - 1), (d, y)) \<in> measure (\<lambda>(d, y). nat (DayFromYear y - d))"
    using DayFromYear_pred [of y] DaysInYear_pos [of "y - 1"] by simp
qed simp

function year_up :: "int \<Rightarrow> int \<Rightarrow> int" where
  "year_up d y = (if DayFromYear (y + 1) \<le> d then year_up d (y + 1) else y)"
  by pat_completeness auto
termination
proof (relation "measure (\<lambda>(d, y). nat (d - DayFromYear y))")
  fix d y :: int
  assume "DayFromYear (y + 1) \<le> d"
  then show "((d, y + 1), (d, y)) \<in> measure (\<lambda>(d, y). nat (d - DayFromYear y))"
    using DayFromYear_Suc [of y] DaysInYear_pos [of y] by simp
qed simp

declare year_down.simps [simp del] year_up.simps [simp del]

definition YearFromTime :: "int \<Rightarrow> int" where
  "YearFromTime t = (let d = Day t in year_up d (year_down d (1970 + d div 365)))"

definition InLeapYear :: "int \<Rightarrow> int" where
  "InLeapYear t = (if DaysInYear (YearFromTime t) = 365 then 0 else 1)"

definition DayWithinYear :: "int \<Rightarrow> int" where
  "DayWithinYear t = Day t - DayFromYear (YearFromTime t)"

definition MonthFromTime :: "int \<Rightarrow> int" where
  "MonthFromTime t =
     (let d = DayWithinYear t; l = InLeapYear t in
      if d < 31 then 0
      else if d < 59 + l then 1
      else if d < 90 + l then 2
      else if d < 120 + l then 3
      else if d < 151 + l then 4
      else if d < 181 + l then 5
      else if d < 212 + l then 6
      else if d < 243 + l then 7
      else if d < 273 + l then 8
      else if d < 304 + l then 9
      else if d < 334 + l then 10
      else 11)"

definition DateFromTime :: "int \<Rightarrow> int" where
  "DateFromTime t =
     (let d = DayWithinYear t; l = InLeapYear t; m = MonthFromTime t in
      if m = 0 then d + 1
      else if m = 1 then d - 30
      else if m = 2 then d - 58 - l
      else if m = 3 then d - 89 - l
      else if m = 4 then d - 119 - l
      else if m = 5 then d - 150 - l
      else if m = 6 then d - 180 - l
      else if m = 7 then d - 211 - l
      else if m = 8 then d - 242 - l
      else if m = 9 then d - 272 - l
      else if m = 10 then d - 303 - l
      else d - 333 - l)"

definition WeekDay :: "int \<Rightarrow> int" where
  "WeekDay t = (Day t + 4) mod 7"

text \<open>
  \<^verbatim>\<open>MakeDay(year, month, date)\<close> carries the month into the year
  (\<open>ym = year + floor(month / 12)\<close>, \<open>mn = month mod 12\<close>), finds the day number of
  the first of month \<open>mn\<close> of year \<open>ym\<close> and adds \<open>date - 1\<close>. The day number of the
  first of a month is the year's first day plus the days of the months before it
  (\<open>DayFromMonth\<close>); lemma \<open>MakeDay_finds_first_of_month\<close> below shows that this is the
  time value the standard asks for. The standard lets \<^verbatim>\<open>MakeDay\<close> answer \<^verbatim>\<open>NaN\<close> when an
  argument is out of range, and the V8 engine does so for a year beyond 1,000,000 or a
  month beyond 10,000,000 in absolute value; the model has the same bounds.
  \<^verbatim>\<open>MakeDate\<close> turns a day number and a time of day into a time value, and \<^verbatim>\<open>TimeClip\<close>
  makes it \<^verbatim>\<open>NaN\<close> when it is more than 100,000,000 days from the epoch. Both pass a
  \<^verbatim>\<open>NaN\<close> on, which the constructor and \<^verbatim>\<open>setMonth\<close> below write as the case \<open>None\<close> of
  the day number.
\<close>

definition DayFromMonth :: "int \<Rightarrow> int \<Rightarrow> int" where
  "DayFromMonth ym mn =
     (let l = (if DaysInYear ym = 365 then 0 else 1) in
      if mn = 0 then 0
      else if mn = 1 then 31
      else if mn = 2 then 59 + l
      else if mn = 3 then 90 + l
      else if mn = 4 then 120 + l
      else if mn = 5 then 151 + l
      else if mn = 6 then 181 + l
      else if mn = 7 then 212 + l
      else if mn = 8 then 243 + l
      else if mn = 9 then 273 + l
      else if mn = 10 then 304 + l
      else 334 + l)"

definition MakeDay :: "int \<Rightarrow> int \<Rightarrow> int \<Rightarrow> int option" where
  "MakeDay year month dt =
     (if - 1000000 \<le> year \<and> year \<le> 1000000 \<and> - 10000000 \<le> month \<and> month \<le> 10000000
      then (let ym = year + month div 12;
                mn = month mod 12
            in Some (DayFromYear ym + DayFromMonth ym mn + dt - 1))
      else None)"

definition MakeDate :: "int \<Rightarrow> int \<Rightarrow> int" where
  "MakeDate day time = day * msPerDay + time"

definition TimeClip :: "int \<Rightarrow> int option" where
  "TimeClip t = (if \<bar>t\<bar> > 8640000000000000 then None else Some t)"

definition LocalTZA :: int where
  "LocalTZA = 0"

definition LocalTime :: "int \<Rightarrow> int" where
  "LocalTime t = t + LocalTZA"

definition UTC :: "int \<Rightarrow> int" where
  "UTC t = t - LocalTZA"

text \<open>
  The \<^verbatim>\<open>Date\<close> object is its time value, \<open>None\<close> for an invalid date. The class uses
  the constructor with three arguments, four getters and \<^verbatim>\<open>setMonth\<close>. The
  constructor reads a year argument from 0 to 99 as 1900 to 1999.
\<close>

type_synonym number = "int option"

type_synonym date = "int option"

definition num_add :: "number \<Rightarrow> number \<Rightarrow> number" where
  "num_add a b = (case a of None \<Rightarrow> None | Some x \<Rightarrow> (case b of None \<Rightarrow> None | Some y \<Rightarrow> Some (x + y)))"

definition strict_eq :: "number \<Rightarrow> number \<Rightarrow> bool" where
  "strict_eq a b = (case a of None \<Rightarrow> False | Some x \<Rightarrow> (case b of None \<Rightarrow> False | Some y \<Rightarrow> x = y))"

definition MakeFullYear :: "int \<Rightarrow> int" where
  "MakeFullYear y = (if 0 \<le> y \<and> y \<le> 99 then 1900 + y else y)"

definition new_Date :: "number \<Rightarrow> number \<Rightarrow> number \<Rightarrow> date" where
  "new_Date year month dt =
     (case year of None \<Rightarrow> None | Some y \<Rightarrow>
      (case month of None \<Rightarrow> None | Some m \<Rightarrow>
       (case dt of None \<Rightarrow> None | Some d \<Rightarrow>
          (let yr = MakeFullYear y
           in (case MakeDay yr m d of
                 None \<Rightarrow> None
               | Some day \<Rightarrow> TimeClip (UTC (MakeDate day 0)))))))"

definition getFullYear :: "date \<Rightarrow> number" where
  "getFullYear dv = map_option (\<lambda>t. YearFromTime (LocalTime t)) dv"

definition getMonth :: "date \<Rightarrow> number" where
  "getMonth dv = map_option (\<lambda>t. MonthFromTime (LocalTime t)) dv"

definition getDate :: "date \<Rightarrow> number" where
  "getDate dv = map_option (\<lambda>t. DateFromTime (LocalTime t)) dv"

definition getDay :: "date \<Rightarrow> number" where
  "getDay dv = map_option (\<lambda>t. WeekDay (LocalTime t)) dv"

definition setMonth :: "number \<Rightarrow> date \<Rightarrow> date" where
  "setMonth month dv =
     (case dv of None \<Rightarrow> None | Some t0 \<Rightarrow>
      (case month of None \<Rightarrow> None | Some m \<Rightarrow>
         (let t = LocalTime t0;
              dt = DateFromTime t
          in (case MakeDay (YearFromTime t) m dt of
                None \<Rightarrow> None
              | Some day \<Rightarrow> TimeClip (UTC (MakeDate day (TimeWithinDay t)))))))"

subsection \<open>The reference calendar\<close>

text \<open>
  The Gregorian calendar as one would state it without a computer: a year is a leap year
  when it is divisible by 4 and not by 100, or by 400; the months have their usual
  lengths (months are numbered from 0, as in the code); the weekday advances by one each
  day, and 1 January 1970 was a Thursday (index 4 with Sunday as 0). The day count
  between 1 January 1970 and a date adds up the lengths of the years and months between.
\<close>

definition is_leap_year :: "int \<Rightarrow> bool" where
  "is_leap_year y = (y mod 4 = 0 \<and> (y mod 100 \<noteq> 0 \<or> y mod 400 = 0))"

definition gregorian_days_in_month :: "int \<Rightarrow> int \<Rightarrow> int" where
  "gregorian_days_in_month y m =
     (if m = 1 then (if is_leap_year y then 29 else 28)
      else if m = 3 \<or> m = 5 \<or> m = 8 \<or> m = 10 then 30
      else 31)"

definition gregorian_days_in_year :: "int \<Rightarrow> int" where
  "gregorian_days_in_year y = (if is_leap_year y then 366 else 365)"

definition days_before_year :: "int \<Rightarrow> int" where
  "days_before_year y =
     (if 1970 \<le> y then sum_list (map gregorian_days_in_year [1970..y - 1])
      else - sum_list (map gregorian_days_in_year [y..1969]))"

definition days_before_month :: "int \<Rightarrow> int \<Rightarrow> int" where
  "days_before_month y m = sum_list (map (gregorian_days_in_month y) [0..m - 1])"

definition gregorian_weekday :: "int \<Rightarrow> int \<Rightarrow> int \<Rightarrow> int" where
  "gregorian_weekday y m d = (4 + days_before_year y + days_before_month y m + (d - 1)) mod 7"

subsection \<open>Strings\<close>

text \<open>
  \<^verbatim>\<open>String(n)\<close> of an integer is its decimal numeral, with a minus sign when negative,
  and \<^verbatim>\<open>"NaN"\<close> for \<^verbatim>\<open>NaN\<close>; \<^verbatim>\<open>s.padStart(n, c)\<close> puts copies of the character \<open>c\<close> in
  front of \<open>s\<close> up to the length \<open>n\<close>.
\<close>

definition digit_char :: "nat \<Rightarrow> char" where
  "digit_char k = ''0123456789'' ! k"

fun digits :: "nat \<Rightarrow> string" where
  "digits n = (if n < 10 then [digit_char n] else digits (n div 10) @ [digit_char (n mod 10)])"

declare digits.simps [simp del]

definition js_String :: "number \<Rightarrow> string" where
  "js_String v =
     (case v of
        None \<Rightarrow> ''NaN''
      | Some i \<Rightarrow> (if i < 0 then CHR ''-'' # digits (nat (- i)) else digits (nat i)))"

definition padStart :: "nat \<Rightarrow> char \<Rightarrow> string \<Rightarrow> string" where
  "padStart n c s = replicate (n - length s) c @ s"

subsection \<open>The widget: data\<close>

text \<open>
  What \<^verbatim>\<open>render\<close> writes into the container is kept as the element tree the browser
  builds from it: the header's title, the two navigation buttons with their
  \<^verbatim>\<open>data-action\<close>, and the cells of \<^verbatim>\<open>.calendar-days\<close> in order. A cell has its class
  list, its \<^verbatim>\<open>data-date\<close> attribute (absent on a filler), its text and the number of
  click listeners attached to it.

  A callback of the host page is opaque: it is named by a number, and a call is recorded,
  with its argument, in a trace beside the messages written to the console. The values
  handed to the host are strings, numbers, \<^verbatim>\<open>Date\<close> objects and plain objects.
\<close>

record cell =
  class_list :: "string list"
  data_date :: "string option"
  day_text :: "int option"
  click_listeners :: nat

record nav_btn =
  data_action :: string
  btn_listeners :: nat

record grid =
  title :: string
  nav :: "nav_btn list"
  cells :: "cell list"

type_synonym callback = nat

type_synonym element = nat

datatype js_value =
    JString string
  | JNumber number
  | JDate date
  | JObject "(string \<times> js_value) list"

datatype event = ConsoleError string | Call callback js_value

datatype js_error = TypeError | SyntaxError

datatype completion = Normal | Throw js_error

record options =
  entryDates :: "string list"
  onDateSelect :: "callback option"
  onMonthChange :: "callback option"
  highlightToday :: bool

text \<open>
  The options object given to the constructor may leave any key out (\<open>None\<close>). The
  container argument is a selector string, an element, or a value that is neither
  (\<^verbatim>\<open>null\<close>, \<^verbatim>\<open>undefined\<close>). \<^verbatim>\<open>document.querySelector\<close> is a parameter: it yields an
  element, \<^verbatim>\<open>null\<close>, or throws on a selector it cannot parse.
\<close>

record options_arg =
  arg_entryDates :: "string list option"
  arg_onDateSelect :: "callback option"
  arg_onMonthChange :: "callback option"
  arg_highlightToday :: "bool option"

datatype container_arg = Selector string | Element element | NoElement

text \<open>
  The fields of an instance, \<open>None\<close> while a field is \<^verbatim>\<open>undefined\<close> or \<^verbatim>\<open>null\<close>; with
  them the content of the container (\<open>view\<close>) and the trace of what the host has seen.
\<close>

record widget =
  container :: "element option"
  options :: "options option"
  currentDate :: "date option"
  selectedDate :: "string option"
  view :: "grid option"
  trace :: "event list"

definition blank :: widget where
  "blank = \<lparr>container = None, options = None, currentDate = None, selectedDate = None,
             view = None, trace = []\<rparr>"

definition and_then :: "completion \<times> widget \<Rightarrow> (widget \<Rightarrow> completion \<times> widget) \<Rightarrow> completion \<times> widget" where
  "and_then r f = (case r of (Normal, w) \<Rightarrow> f w | (Throw e, w) \<Rightarrow> (Throw e, w))"

subsection \<open>The widget: \<^verbatim>\<open>render\<close>\<close>

definition monthNames :: "string list" where
  "monthNames =
     [''January'', ''February'', ''March'', ''April'', ''May'', ''June'',
      ''July'', ''August'', ''September'', ''October'', ''November'', ''December'']"

definition title_of :: "number \<Rightarrow> number \<Rightarrow> string" where
  "title_of month year =
     (case month of
        None \<Rightarrow> ''undefined''
      | Some m \<Rightarrow> (if 0 \<le> m \<and> m < 12 then monthNames ! nat m else ''undefined''))
     @ '' '' @ js_String year"

definition filler_cell :: cell where
  "filler_cell =
     \<lparr>class_list = [''calendar-day'', ''other-month''], data_date = None, day_text = None,
      click_listeners = 0\<rparr>"

definition dateStr_of :: "number \<Rightarrow> number \<Rightarrow> int \<Rightarrow> string" where
  "dateStr_of year month day =
     js_String year @ ''-'' @ padStart 2 (CHR ''0'') (js_String (num_add month (Some 1)))
       @ ''-'' @ padStart 2 (CHR ''0'') (js_String (Some day))"

definition day_cell :: "options \<Rightarrow> number \<Rightarrow> number \<Rightarrow> date \<Rightarrow> int \<Rightarrow> cell" where
  "day_cell opts year month today day =
     (let dateStr = dateStr_of year month day;
          isToday = (highlightToday opts \<and> strict_eq (Some day) (getDate today)
                       \<and> strict_eq month (getMonth today)
                       \<and> strict_eq year (getFullYear today));
          hasEntry = (dateStr \<in> set (entryDates opts));
          classes = [''calendar-day''] @ (if isToday then [''today''] else [])
                       @ (if hasEntry then [''has-entry''] else [])
      in \<lparr>class_list = classes, data_date = Some dateStr, day_text = Some day,
          click_listeners = 0\<rparr>)"

definition set_innerHTML :: "grid \<Rightarrow> widget \<Rightarrow> completion \<times> widget" where
  "set_innerHTML g w =
     (case container w of
        None \<Rightarrow> (Throw TypeError, w)
      | Some el \<Rightarrow> (Normal, w\<lparr>view := Some g\<rparr>))"

text \<open>
  Every operation that renders takes the reading of the clock at the time of the call
  (\<open>now\<close>), one reading for the whole call. \<^verbatim>\<open>render\<close> reads it for \<^verbatim>\<open>today\<close>. It throws
  a \<^verbatim>\<open>TypeError\<close> where it reads a property of a field that is not set: \<^verbatim>\<open>currentDate\<close> at
  once, \<^verbatim>\<open>options\<close> in the first round of the day loop, the container at the final
  assignment. Neither loop runs when its bound is \<^verbatim>\<open>NaN\<close>.
\<close>

definition render :: "int \<Rightarrow> widget \<Rightarrow> completion \<times> widget" where
  "render now w =
     (case currentDate w of
        None \<Rightarrow> (Throw TypeError, w)
      | Some cd \<Rightarrow>
          (let year = getFullYear cd;
               month = getMonth cd;
               today = Some now;
               firstDay = getDay (new_Date year month (Some 1));
               daysInMonth = getDate (new_Date year (num_add month (Some 1)) (Some 0));
               header = title_of month year;
               buttons = [\<lparr>data_action = ''prev'', btn_listeners = 0\<rparr>,
                          \<lparr>data_action = ''next'', btn_listeners = 0\<rparr>];
               fillers = replicate (case firstDay of None \<Rightarrow> 0 | Some n \<Rightarrow> nat n) filler_cell;
               days = (case daysInMonth of None \<Rightarrow> [] | Some n \<Rightarrow> [1..n])
           in (case options w of
                 None \<Rightarrow>
                   (if days = []
                    then set_innerHTML \<lparr>title = header, nav = buttons, cells = fillers\<rparr> w
                    else (Throw TypeError, w))
               | Some opts \<Rightarrow>
                   set_innerHTML
                     \<lparr>title = header, nav = buttons,
                      cells = fillers @ map (day_cell opts year month today) days\<rparr> w)))"

subsection \<open>The widget: listeners and clicks\<close>

text \<open>
  \<^verbatim>\<open>attachEvents\<close> adds one click listener to every navigation button and to every
  cell matched by \<^verbatim>\<open>.calendar-day:not(.other-month)\<close>. A click on an element runs each
  of its listeners once; an exception in a listener is reported by the browser and does
  not reach the host, so the dispatch keeps the state and goes on.
\<close>

definition day_selector :: "cell \<Rightarrow> bool" where
  "day_selector c =
     (''calendar-day'' \<in> set (class_list c) \<and> ''other-month'' \<notin> set (class_list c))"

definition attachEvents :: "widget \<Rightarrow> completion \<times> widget" where
  "attachEvents w =
     (case container w of
        None \<Rightarrow> (Throw TypeError, w)
      | Some el \<Rightarrow>
          (Normal,
           w\<lparr>view :=
               map_option
                 (\<lambda>g. g\<lparr>nav := map (\<lambda>b. b\<lparr>btn_listeners := btn_listeners b + 1\<rparr>) (nav g),
                         cells := map (\<lambda>c. if day_selector c
                                             then c\<lparr>click_listeners := click_listeners c + 1\<rparr>
                                             else c) (cells g)\<rparr>)
                 (view w)\<rparr>))"

definition nav_listener :: "int \<Rightarrow> string \<Rightarrow> widget \<Rightarrow> completion \<times> widget" where
  "nav_listener now action w =
     (let moved =
        (if action = ''prev'' then
           (case currentDate w of
              None \<Rightarrow> (Throw TypeError, w)
            | Some cd \<Rightarrow>
                (Normal, w\<lparr>currentDate := Some (setMonth (num_add (getMonth cd) (Some (- 1))) cd)\<rparr>))
         else if action = ''next'' then
           (case currentDate w of
              None \<Rightarrow> (Throw TypeError, w)
            | Some cd \<Rightarrow>
                (Normal, w\<lparr>currentDate := Some (setMonth (num_add (getMonth cd) (Some 1)) cd)\<rparr>))
         else (Normal, w))
      in and_then moved (\<lambda>w1.
         and_then (render now w1) (\<lambda>w2.
         and_then (attachEvents w2) (\<lambda>w3.
           (case options w3 of
              None \<Rightarrow> (Throw TypeError, w3)
            | Some opts \<Rightarrow>
                (case onMonthChange opts of
                   None \<Rightarrow> (Normal, w3)
                 | Some f \<Rightarrow>
                     (case currentDate w3 of
                        None \<Rightarrow> (Throw TypeError, w3)
                      | Some cd \<Rightarrow> (Normal, w3\<lparr>trace := trace w3 @ [Call f (JDate cd)]\<rparr>))))))))"

definition day_listener :: "cell \<Rightarrow> widget \<Rightarrow> completion \<times> widget" where
  "day_listener c w =
     (case data_date c of
        None \<Rightarrow> (Normal, w)
      | Some dateStr \<Rightarrow>
          (if dateStr = [] then (Normal, w)
           else (case options w of
                   None \<Rightarrow> (Throw TypeError, w)
                 | Some opts \<Rightarrow>
                     (case onDateSelect opts of
                        None \<Rightarrow> (Normal, w)
                      | Some f \<Rightarrow>
                          (Normal, w\<lparr>selectedDate := Some dateStr,
                                     trace := trace w @ [Call f (JString dateStr)]\<rparr>)))))"

definition click_nav :: "int \<Rightarrow> nav_btn \<Rightarrow> widget \<Rightarrow> widget" where
  "click_nav now b w = ((\<lambda>v. snd (nav_listener now (data_action b) v)) ^^ btn_listeners b) w"

definition click_cell :: "cell \<Rightarrow> widget \<Rightarrow> widget" where
  "click_cell c w = ((\<lambda>v. snd (day_listener c v)) ^^ click_listeners c) w"

subsection \<open>The widget: constructor and public methods\<close>

definition init :: "int \<Rightarrow> widget \<Rightarrow> completion \<times> widget" where
  "init now w = and_then (render now w) attachEvents"

text \<open>
  The container is resolved from a selector or taken as given; the options are the
  defaults overridden by the keys that are present.
\<close>

definition resolve ::
  "(string \<Rightarrow> js_error + element option) \<Rightarrow> container_arg \<Rightarrow> js_error + element option" where
  "resolve querySelector container_in =
     (case container_in of
        Selector s \<Rightarrow> querySelector s
      | Element el \<Rightarrow> Inr (Some el)
      | NoElement \<Rightarrow> Inr None)"

definition defaults :: "options_arg \<Rightarrow> options" where
  "defaults a =
     \<lparr>entryDates = (case arg_entryDates a of None \<Rightarrow> [] | Some ds \<Rightarrow> ds),
      onDateSelect = arg_onDateSelect a,
      onMonthChange = arg_onMonthChange a,
      highlightToday = (case arg_highlightToday a of None \<Rightarrow> True | Some b \<Rightarrow> b)\<rparr>"

definition JournalCalendar ::
  "(string \<Rightarrow> js_error + element option) \<Rightarrow> int \<Rightarrow> container_arg \<Rightarrow> options_arg
     \<Rightarrow> completion \<times> widget" where
  "JournalCalendar querySelector now container_in options_in =
     (case resolve querySelector container_in of
        Inl e \<Rightarrow> (Throw e, blank)
      | Inr None \<Rightarrow> (Normal, blank\<lparr>trace := [ConsoleError ''Calendar container not found'']\<rparr>)
      | Inr (Some el) \<Rightarrow>
          init now
            (blank\<lparr>container := Some el,
                   options := Some (defaults options_in),
                   currentDate := Some (Some now),
                   selectedDate := None\<rparr>))"

definition setEntryDates :: "int \<Rightarrow> string list \<Rightarrow> widget \<Rightarrow> completion \<times> widget" where
  "setEntryDates now dates w =
     (case options w of
        None \<Rightarrow> (Throw TypeError, w)
      | Some opts \<Rightarrow>
          and_then (render now (w\<lparr>options := Some (opts\<lparr>entryDates := dates\<rparr>)\<rparr>)) attachEvents)"

definition goToMonth :: "int \<Rightarrow> int \<Rightarrow> int \<Rightarrow> widget \<Rightarrow> completion \<times> widget" where
  "goToMonth now year month w =
     and_then (render now (w\<lparr>currentDate := Some (new_Date (Some year) (Some month) (Some 1))\<rparr>))
       attachEvents"

definition getCurrentMonth :: "widget \<Rightarrow> js_error + js_value" where
  "getCurrentMonth w =
     (case currentDate w of
        None \<Rightarrow> Inl TypeError
      | Some cd \<Rightarrow>
          Inr (JObject [(''year'', JNumber (getFullYear cd)), (''month'', JNumber (getMonth cd))]))"

subsection \<open>The grid of an initialised instance\<close>

text \<open>
  Names for what the code computes on an instance whose container, options and date are
  set: the weekday index of the first of the month and the number of days, as \<^verbatim>\<open>render\<close>
  computes them from \<^verbatim>\<open>currentDate\<close>; the grid \<^verbatim>\<open>render\<close> writes; the grid after
  \<^verbatim>\<open>attachEvents\<close>. That \<^verbatim>\<open>render\<close> and \<^verbatim>\<open>attachEvents\<close> produce them is proved below
  (\<open>render_ready\<close>, \<open>attachEvents_ready\<close>). \<open>nav_step\<close> is the month offset of a navigation
  action, \<open>marked\<close> the "has entry" flag of a cell.
\<close>

definition first_day_of :: "date \<Rightarrow> number" where
  "first_day_of cd = getDay (new_Date (getFullYear cd) (getMonth cd) (Some 1))"

definition days_in_month_of :: "date \<Rightarrow> number" where
  "days_in_month_of cd =
     getDate (new_Date (getFullYear cd) (num_add (getMonth cd) (Some 1)) (Some 0))"

definition filler_count :: "date \<Rightarrow> nat" where
  "filler_count cd = (case first_day_of cd of None \<Rightarrow> 0 | Some n \<Rightarrow> nat n)"

definition day_numbers :: "date \<Rightarrow> int list" where
  "day_numbers cd = (case days_in_month_of cd of None \<Rightarrow> [] | Some n \<Rightarrow> [1..n])"

definition rendered :: "int \<Rightarrow> options \<Rightarrow> date \<Rightarrow> grid" where
  "rendered now opts cd =
     \<lparr>title = title_of (getMonth cd) (getFullYear cd),
      nav = [\<lparr>data_action = ''prev'', btn_listeners = 0\<rparr>,
             \<lparr>data_action = ''next'', btn_listeners = 0\<rparr>],
      cells = replicate (filler_count cd) filler_cell
                @ map (day_cell opts (getFullYear cd) (getMonth cd) (Some now)) (day_numbers cd)\<rparr>"

definition attached :: "grid \<Rightarrow> grid" where
  "attached g =
     g\<lparr>nav := map (\<lambda>b. b\<lparr>btn_listeners := btn_listeners b + 1\<rparr>) (nav g),
       cells := map (\<lambda>c. if day_selector c
                           then c\<lparr>click_listeners := click_listeners c + 1\<rparr>
                           else c) (cells g)\<rparr>"

definition nav_step :: "string \<Rightarrow> int" where
  "nav_step action = (if action = ''prev'' then - 1 else 1)"

definition marked :: "cell \<Rightarrow> bool" where
  "marked c = (''has-entry'' \<in> set (class_list c))"

text \<open>
  The invariant of an instance whose constructor found its container: the three fields
  are set, every navigation button and every day cell of the container carries exactly
  one listener, a day cell has a non-empty \<^verbatim>\<open>data-date\<close>, and no other cell has a listener.
\<close>

definition wired_cell :: "cell \<Rightarrow> bool" where
  "wired_cell c =
     (if day_selector c
      then click_listeners c = 1 \<and> data_date c \<noteq> None \<and> data_date c \<noteq> Some []
      else click_listeners c = 0)"

definition wired_btn :: "nav_btn \<Rightarrow> bool" where
  "wired_btn b = (btn_listeners b = 1 \<and> (data_action b = ''prev'' \<or> data_action b = ''next''))"

definition ready :: "widget \<Rightarrow> bool" where
  "ready w =
     (container w \<noteq> None \<and> options w \<noteq> None \<and> currentDate w \<noteq> None
      \<and> (case view w of
            None \<Rightarrow> False
          | Some g \<Rightarrow> list_all wired_btn (nav g) \<and> list_all wired_cell (cells g)))"

subsection \<open>The vocabulary of the claims\<close>

text \<open>
  An object of the shape \<^verbatim>\<open>{year, month}\<close> is a plain object whose properties \<^verbatim>\<open>year\<close> and
  \<^verbatim>\<open>month\<close> are numbers, as \<^verbatim>\<open>getCurrentMonth\<close> returns. A \<^verbatim>\<open>Date\<close> object has neither
  property.
\<close>

definition year_month_object :: "js_value \<Rightarrow> bool" where
  "year_month_object v =
     (case v of
        JObject props \<Rightarrow>
          (case map_of props ''year'' of
             Some (JNumber y) \<Rightarrow>
               (case map_of props ''month'' of Some (JNumber m) \<Rightarrow> True | _ \<Rightarrow> False)
           | _ \<Rightarrow> False)
      | _ \<Rightarrow> False)"

text \<open>
  The canonical form \<^verbatim>\<open>YYYY-MM-DD\<close> of a date identifier, stated on its own: four decimal
  digits of the year, two of the month counted from 1, two of the day, each zero-padded,
  with hyphens between. \<open>canonical_ymd\<close> recognises the strings of that shape;
  \<open>ymd_shaped\<close> recognises the wider shape that has a year of any number of digits, with
  or without a minus sign.
\<close>

definition is_digit :: "char \<Rightarrow> bool" where
  "is_digit c = (c \<in> set ''0123456789'')"

definition two_digits :: "int \<Rightarrow> string" where
  "two_digits n = [digit_char (nat n div 10), digit_char (nat n mod 10)]"

definition four_digits :: "int \<Rightarrow> string" where
  "four_digits n =
     [digit_char (nat n div 1000), digit_char (nat n div 100 mod 10),
      digit_char (nat n div 10 mod 10), digit_char (nat n mod 10)]"

definition canonical_date_id :: "int \<Rightarrow> int \<Rightarrow> int \<Rightarrow> string" where
  "canonical_date_id y mo d = four_digits y @ ''-'' @ two_digits mo @ ''-'' @ two_digits d"

definition canonical_ymd :: "string \<Rightarrow> bool" where
  "canonical_ymd s =
     (length s = 10 \<and> list_all is_digit (take 4 s) \<and> s ! 4 = CHR ''-''
      \<and> list_all is_digit (take 2 (drop 5 s)) \<and> s ! 7 = CHR ''-''
      \<and> list_all is_digit (drop 8 s))"



subsection \<open>A page to run the widget on\<close>

text \<open>
  A document with one element, found by the selector \<^verbatim>\<open>#calendar\<close>; the empty selector
  cannot be parsed and any other selector matches nothing. \<open>on_page now a\<close> is the
  instance the constructor leaves when called at time \<open>now\<close> with the options \<open>a\<close>, and
  \<open>inert\<close> the one it leaves for a selector that matches nothing. The options used are:
  none; an \<^verbatim>\<open>onMonthChange\<close> callback; an \<^verbatim>\<open>onDateSelect\<close> callback; two lists of the same
  entry dates in different orders with \<^verbatim>\<open>highlightToday\<close> off. The elements clicked are the
  two navigation buttons and the cell of 15 January 2024, as \<^verbatim>\<open>attachEvents\<close> leaves them.
\<close>

definition page :: "string \<Rightarrow> js_error + element option" where
  "page s = (if s = ''#calendar'' then Inr (Some 0) else if s = [] then Inl SyntaxError else Inr None)"

definition no_options :: options_arg where
  "no_options = \<lparr>arg_entryDates = None, arg_onDateSelect = None, arg_onMonthChange = None,
                  arg_highlightToday = None\<rparr>"

definition on_page :: "int \<Rightarrow> options_arg \<Rightarrow> widget" where
  "on_page now a = snd (JournalCalendar page now (Selector ''#calendar'') a)"

definition inert :: widget where
  "inert = snd (JournalCalendar page 1706702400000 (Selector ''#missing'') no_options)"

definition with_month_callback :: options_arg where
  "with_month_callback = no_options\<lparr>arg_onMonthChange := Some 7\<rparr>"

definition with_select_callback :: options_arg where
  "with_select_callback = no_options\<lparr>arg_onDateSelect := Some 3\<rparr>"

definition entries_a :: options_arg where
  "entries_a = \<lparr>arg_entryDates = Some [''2024-01-15'', ''2024-01-20''], arg_onDateSelect = Some 3,
                 arg_onMonthChange = None, arg_highlightToday = Some False\<rparr>"

definition entries_b :: options_arg where
  "entries_b = \<lparr>arg_entryDates = Some [''2024-01-20'', ''2024-01-15'', ''2024-01-20''],
                 arg_onDateSelect = None, arg_onMonthChange = Some 7,
                 arg_highlightToday = Some False\<rparr>"

definition next_button :: nav_btn where
  "next_button = \<lparr>data_action = ''next'', btn_listeners = 1\<rparr>"

definition prev_button :: nav_btn where
  "prev_button = \<lparr>data_action = ''prev'', btn_listeners = 1\<rparr>"

definition cell_2024_01_15 :: cell where
  "cell_2024_01_15 =
     \<lparr>class_list = [''calendar-day''], data_date = Some ''2024-01-15'', day_text = Some 15,
      click_listeners = 1\<rparr>"

section \<open>Properties of the date arithmetic\<close>

subsection \<open>Years, months and days of a time value\<close>

lemma year_down_le: "DayFromYear (year_down d y) \<le> d"
proof (induction d y rule: year_down.induct)
  case (1 d y)
  then show ?case by (subst year_down.simps) simp
qed

lemma year_up_spec:
  "DayFromYear y \<le> d \<Longrightarrow> DayFromYear (year_up d y) \<le> d \<and> d < DayFromYear (year_up d y + 1)"
proof (induction d y rule: year_up.induct)
  case (1 d y)
  then show ?case by (subst (1 2) year_up.simps) simp
qed

lemma DayFromYear_mono: "y \<le> y' \<Longrightarrow> DayFromYear y \<le> DayFromYear y'"
proof (induction y' rule: int_ge_induct)
  case base
  show ?case by simp
next
  case (step i)
  then show ?case using DayFromYear_Suc [of i] DaysInYear_pos [of i] by simp
qed

lemma year_unique:
  assumes "DayFromYear y \<le> d" "d < DayFromYear (y + 1)"
    and "DayFromYear y' \<le> d" "d < DayFromYear (y' + 1)"
  shows "y = y'"
proof (rule ccontr)
  assume "y \<noteq> y'"
  then consider "y + 1 \<le> y'" | "y' + 1 \<le> y" by linarith
  then show False
  proof cases
    case 1
    from DayFromYear_mono [OF 1] assms show False by simp
  next
    case 2
    from DayFromYear_mono [OF 2] assms show False by simp
  qed
qed

lemma YearFromTime_spec:
  "DayFromYear (YearFromTime t) \<le> Day t \<and> Day t < DayFromYear (YearFromTime t + 1)"
  unfolding YearFromTime_def Let_def
  by (rule year_up_spec) (rule year_down_le)

lemma YearFromTime_eqI:
  "DayFromYear y \<le> Day t \<Longrightarrow> Day t < DayFromYear (y + 1) \<Longrightarrow> YearFromTime t = y"
  using year_unique [of "YearFromTime t" "Day t" y] YearFromTime_spec [of t] by simp


lemma leap_rule_aux:
  "(c \<longrightarrow> b) \<Longrightarrow> (b \<longrightarrow> a) \<Longrightarrow>
   (if \<not> a then 365 else if \<not> b then 366 else if \<not> c then 365 else 366) =
   (if a \<and> (\<not> b \<or> c) then 366 else (365::int))"
  by (cases a; cases b; cases c; simp)

lemma DaysInYear_leap: "DaysInYear y = (if is_leap_year y then 366 else 365)"
  unfolding DaysInYear_def is_leap_year_def
proof (rule leap_rule_aux)
  show "y mod 400 = 0 \<longrightarrow> y mod 100 = 0" by (rule impI) (rule mod400_100)
  show "y mod 100 = 0 \<longrightarrow> y mod 4 = 0" by (rule impI) (rule mod100_4)
qed

lemma leap_flag: "(if DaysInYear y = 365 then 0 else 1) = (if is_leap_year y then 1 else (0::int))"
  by (simp add: DaysInYear_leap)

lemma month_cases:
  assumes "0 \<le> (m::int)" "m < 12"
  obtains "m = 0" | "m = 1" | "m = 2" | "m = 3" | "m = 4" | "m = 5"
    | "m = 6" | "m = 7" | "m = 8" | "m = 9" | "m = 10" | "m = 11"
proof -
  have "m = 0 \<or> m = 1 \<or> m = 2 \<or> m = 3 \<or> m = 4 \<or> m = 5
      \<or> m = 6 \<or> m = 7 \<or> m = 8 \<or> m = 9 \<or> m = 10 \<or> m = 11"
    using assms by presburger
  then show thesis using that by blast
qed

lemma DayFromMonth_next:
  assumes "0 \<le> m" "m < 12"
  shows "DayFromMonth y m + gregorian_days_in_month y m =
         (if m = 11 then DaysInYear y else DayFromMonth y (m + 1))"
  using assms(1,2)
  by (cases m rule: month_cases)
     (simp_all add: DayFromMonth_def gregorian_days_in_month_def leap_flag DaysInYear_leap)

lemma DayFromMonth_nonneg: "0 \<le> DayFromMonth y m"
  by (simp add: DayFromMonth_def Let_def)

lemma DayWithinYear_bounds: "0 \<le> DayWithinYear t \<and> DayWithinYear t < DaysInYear (YearFromTime t)"
  using YearFromTime_spec [of t] DayFromYear_Suc [of "YearFromTime t"]
  by (simp add: DayWithinYear_def)

lemma MonthFromTime_range: "0 \<le> MonthFromTime t \<and> MonthFromTime t \<le> 11"
  by (simp add: MonthFromTime_def Let_def)

lemma day_interval_cases:
  fixes d l :: int
  obtains (m0) "d < 31" | (m1) "31 \<le> d" "d < 59 + l" | (m2) "59 + l \<le> d" "d < 90 + l"
    | (m3) "90 + l \<le> d" "d < 120 + l" | (m4) "120 + l \<le> d" "d < 151 + l"
    | (m5) "151 + l \<le> d" "d < 181 + l" | (m6) "181 + l \<le> d" "d < 212 + l"
    | (m7) "212 + l \<le> d" "d < 243 + l" | (m8) "243 + l \<le> d" "d < 273 + l"
    | (m9) "273 + l \<le> d" "d < 304 + l" | (m10) "304 + l \<le> d" "d < 334 + l"
    | (m11) "334 + l \<le> d"
  by (meson not_le)

lemma month_decode:
  fixes t :: int
  defines "y \<equiv> YearFromTime t" and "m \<equiv> MonthFromTime t" and "d \<equiv> DayWithinYear t"
  shows "DayFromMonth y m \<le> d \<and> d < DayFromMonth y m + gregorian_days_in_month y m
         \<and> DateFromTime t = d - DayFromMonth y m + 1"
proof -
  define l :: int where "l = (if is_leap_year y then 1 else 0)"
  have lp: "InLeapYear t = l"
    by (simp add: InLeapYear_def y_def [symmetric] leap_flag l_def)
  have l01: "0 \<le> l" "l \<le> 1" by (simp_all add: l_def)
  have d0: "0 \<le> d" and d1: "d < 365 + l"
    using DayWithinYear_bounds [of t]
    by (auto simp: d_def y_def DaysInYear_leap l_def split: if_splits)
  have dfm: "DayFromMonth y k =
     (if k = 0 then 0 else if k = 1 then 31 else if k = 2 then 59 + l
      else if k = 3 then 90 + l else if k = 4 then 120 + l else if k = 5 then 151 + l
      else if k = 6 then 181 + l else if k = 7 then 212 + l else if k = 8 then 243 + l
      else if k = 9 then 273 + l else if k = 10 then 304 + l else 334 + l)" for k
    by (simp add: DayFromMonth_def leap_flag l_def)
  have gd: "gregorian_days_in_month y k =
     (if k = 1 then 28 + l else if k = 3 \<or> k = 5 \<or> k = 8 \<or> k = 10 then 30 else 31)" for k
    by (simp add: gregorian_days_in_month_def l_def)
  have mf: "m = (if d < 31 then 0 else if d < 59 + l then 1 else if d < 90 + l then 2
      else if d < 120 + l then 3 else if d < 151 + l then 4 else if d < 181 + l then 5
      else if d < 212 + l then 6 else if d < 243 + l then 7 else if d < 273 + l then 8
      else if d < 304 + l then 9 else if d < 334 + l then 10 else 11)"
    by (simp add: m_def MonthFromTime_def d_def [symmetric] lp)
  have df: "DateFromTime t = (if m = 0 then d + 1 else if m = 1 then d - 30
      else if m = 2 then d - 58 - l else if m = 3 then d - 89 - l
      else if m = 4 then d - 119 - l else if m = 5 then d - 150 - l
      else if m = 6 then d - 180 - l else if m = 7 then d - 211 - l
      else if m = 8 then d - 242 - l else if m = 9 then d - 272 - l
      else if m = 10 then d - 303 - l else d - 333 - l)"
    by (simp add: DateFromTime_def m_def [symmetric] d_def [symmetric] lp)
  show ?thesis
  proof (rule day_interval_cases [where d = d and l = l])
    assume m0: "d < 31"
    then have "m = 0" by (simp add: mf)
    then show ?thesis using m0 d0 by (simp add: df dfm gd)
  next
    assume m1: "31 \<le> d" "d < 59 + l"
    then have "m = 1" using l01 by (simp add: mf)
    then show ?thesis using m1 by (simp add: df dfm gd)
  next
    assume m2: "59 + l \<le> d" "d < 90 + l"
    then have "m = 2" using l01 by (simp add: mf)
    then show ?thesis using m2 by (simp add: df dfm gd)
  next
    assume m3: "90 + l \<le> d" "d < 120 + l"
    then have "m = 3" using l01 by (simp add: mf)
    then show ?thesis using m3 by (simp add: df dfm gd)
  next
    assume m4: "120 + l \<le> d" "d < 151 + l"
    then have "m = 4" using l01 by (simp add: mf)
    then show ?thesis using m4 by (simp add: df dfm gd)
  next
    assume m5: "151 + l \<le> d" "d < 181 + l"
    then have "m = 5" using l01 by (simp add: mf)
    then show ?thesis using m5 by (simp add: df dfm gd)
  next
    assume m6: "181 + l \<le> d" "d < 212 + l"
    then have "m = 6" using l01 by (simp add: mf)
    then show ?thesis using m6 by (simp add: df dfm gd)
  next
    assume m7: "212 + l \<le> d" "d < 243 + l"
    then have "m = 7" using l01 by (simp add: mf)
    then show ?thesis using m7 by (simp add: df dfm gd)
  next
    assume m8: "243 + l \<le> d" "d < 273 + l"
    then have "m = 8" using l01 by (simp add: mf)
    then show ?thesis using m8 by (simp add: df dfm gd)
  next
    assume m9: "273 + l \<le> d" "d < 304 + l"
    then have "m = 9" using l01 by (simp add: mf)
    then show ?thesis using m9 by (simp add: df dfm gd)
  next
    assume m10: "304 + l \<le> d" "d < 334 + l"
    then have "m = 10" using l01 by (simp add: mf)
    then show ?thesis using m10 by (simp add: df dfm gd)
  next
    assume m11: "334 + l \<le> d"
    then have "m = 11" using l01 by (simp add: mf)
    then show ?thesis using m11 d1 by (simp add: df dfm gd)
  qed
qed

lemma gregorian_days_in_month_range:
  "28 \<le> gregorian_days_in_month y m \<and> gregorian_days_in_month y m \<le> 31"
  by (simp add: gregorian_days_in_month_def)

lemma DateFromTime_range: "1 \<le> DateFromTime t \<and> DateFromTime t \<le> 31"
  using month_decode [of t]
    gregorian_days_in_month_range [of "YearFromTime t" "MonthFromTime t"]
  by linarith

lemma civil_roundtrip:
  assumes m: "0 \<le> m" "m < 12"
    and d: "1 \<le> d" "d \<le> gregorian_days_in_month y m"
    and t: "Day t = DayFromYear y + DayFromMonth y m + d - 1"
  shows "YearFromTime t = y \<and> MonthFromTime t = m \<and> DateFromTime t = d"
proof -
  have ub: "DayFromMonth y m + d \<le> DaysInYear y"
    using m d by (cases m rule: month_cases)
      (simp_all add: DayFromMonth_def gregorian_days_in_month_def leap_flag DaysInYear_leap split: if_splits)
  have yr: "YearFromTime t = y"
  proof (rule YearFromTime_eqI)
    show "DayFromYear y \<le> Day t"
      using t d DayFromMonth_nonneg [of y m] by simp
    show "Day t < DayFromYear (y + 1)"
      using t ub by (simp add: DayFromYear_Suc)
  qed
  have dwy: "DayWithinYear t = DayFromMonth y m + d - 1"
    by (simp add: DayWithinYear_def yr t)
  have lp: "InLeapYear t = (if is_leap_year y then 1 else 0)"
    by (simp add: InLeapYear_def yr leap_flag)
  have mo: "MonthFromTime t = m"
    using m d by (cases m rule: month_cases)
      (simp_all add: MonthFromTime_def dwy lp DayFromMonth_def gregorian_days_in_month_def leap_flag
        split: if_splits)
  have da: "DateFromTime t = d"
    using m by (cases m rule: month_cases)
      (simp_all add: DateFromTime_def mo dwy lp DayFromMonth_def leap_flag)
  from yr mo da show ?thesis by simp
qed

lemma DayFromYear_1970: "DayFromYear 1970 = 0"
  by (simp add: DayFromYear_def)

lemma days_before_year_ge: "1970 \<le> y \<Longrightarrow> sum_list (map gregorian_days_in_year [1970..y - 1]) = DayFromYear y"
proof (induction y rule: int_ge_induct)
  case base
  show ?case by (simp add: DayFromYear_1970)
next
  case (step i)
  have "[1970..i + 1 - 1] = [1970..i - 1] @ [i]"
    using step.hyps upto_rec2 [of 1970 i] by simp
  then show ?case
    using step.IH by (simp add: DayFromYear_Suc DaysInYear_leap gregorian_days_in_year_def)
qed

lemma days_before_year_le: "y \<le> 1970 \<Longrightarrow> sum_list (map gregorian_days_in_year [y..1969]) = - DayFromYear y"
proof (induction y rule: int_le_induct)
  case base
  show ?case by (simp add: DayFromYear_1970)
next
  case (step i)
  have "[i - 1..1969] = (i - 1) # [i..1969]"
    using step.hyps upto_rec1 [of "i - 1" 1969] by simp
  then show ?case
    using step.IH DayFromYear_pred [of i]
    by (simp add: DaysInYear_leap gregorian_days_in_year_def)
qed

lemma days_before_year_eq: "days_before_year y = DayFromYear y"
  using days_before_year_ge [of y] days_before_year_le [of y]
  by (simp add: days_before_year_def)

lemma days_before_month_eq:
  assumes "0 \<le> m" "m < 12"
  shows "days_before_month y m = DayFromMonth y m"
  using assms
  by (cases m rule: month_cases)
     (simp_all add: days_before_month_def upto_rec1 gregorian_days_in_month_def DayFromMonth_def leap_flag)


lemma Day_MakeDate:
  assumes "0 \<le> tod" "tod < msPerDay"
  shows "Day (MakeDate d tod) = d" and "TimeWithinDay (MakeDate d tod) = tod"
proof -
  have e: "MakeDate d tod = msPerDay * d + tod"
    by (simp add: MakeDate_def mult.commute)
  show "Day (MakeDate d tod) = d"
    unfolding Day_def using int_div_pos_eq [OF e assms] .
  show "TimeWithinDay (MakeDate d tod) = tod"
    unfolding TimeWithinDay_def using int_mod_pos_eq [OF e assms] .
qed

lemma TimeWithinDay_bounds: "0 \<le> TimeWithinDay t \<and> TimeWithinDay t < msPerDay"
  by (simp add: TimeWithinDay_def msPerDay_def)

lemma MakeDate_Day: "MakeDate (Day t) (TimeWithinDay t) = t"
  by (simp add: MakeDate_def Day_def TimeWithinDay_def)

lemma DayFromYear_lower: "DayFromYear (- 271820) = - 99999744"
  by (simp add: DayFromYear_def)

lemma DayFromYear_upper: "DayFromYear 275760 = 99999744"
  by (simp add: DayFromYear_def)

lemma TimeClip_in_range:
  assumes "- 100000000 \<le> d" "d < 100000000" "0 \<le> tod" "tod < msPerDay"
  shows "TimeClip (MakeDate d tod) = Some (MakeDate d tod)"
proof -
  have "- 100000000 * msPerDay \<le> d * msPerDay"
    using assms(1) by (simp add: msPerDay_def)
  moreover have "d * msPerDay \<le> 99999999 * msPerDay"
    using assms(2) by (simp add: msPerDay_def)
  ultimately have "\<bar>MakeDate d tod\<bar> \<le> 8640000000000000"
    using assms(3,4) by (simp add: MakeDate_def msPerDay_def)
  then show ?thesis by (simp add: TimeClip_def)
qed

text \<open>The day numbers of the years a \<^verbatim>\<open>Date\<close> holds in full.\<close>

lemma year_days_in_range:
  assumes "- 271820 \<le> y" "y \<le> 275759" "0 \<le> k" "k < DaysInYear y"
  shows "- 100000000 \<le> DayFromYear y + k" and "DayFromYear y + k < 100000000"
proof -
  have "DayFromYear (- 271820) \<le> DayFromYear y"
    using assms(1) by (rule DayFromYear_mono)
  then show "- 100000000 \<le> DayFromYear y + k"
    using assms(3) by (simp add: DayFromYear_lower)
  have "DayFromYear (y + 1) \<le> DayFromYear 275760"
    using assms(2) by (intro DayFromYear_mono) simp
  then show "DayFromYear y + k < 100000000"
    using assms(4) by (simp add: DayFromYear_Suc DayFromYear_upper)
qed

lemma month_day_within_year:
  assumes "0 \<le> m" "m < 12" "1 \<le> d" "d \<le> gregorian_days_in_month y m"
  shows "0 \<le> DayFromMonth y m + d - 1" and "DayFromMonth y m + d - 1 < DaysInYear y"
proof -
  show "0 \<le> DayFromMonth y m + d - 1"
    using DayFromMonth_nonneg [of y m] assms(3) by simp
  have "DayFromMonth y m + gregorian_days_in_month y m \<le> DaysInYear y"
    using assms(1,2)
    by (cases m rule: month_cases)
       (simp_all add: DayFromMonth_def gregorian_days_in_month_def leap_flag DaysInYear_leap)
  then show "DayFromMonth y m + d - 1 < DaysInYear y"
    using assms(4) by simp
qed

text \<open>
  The time value \<open>MakeDay\<close> builds for the first of a month is the one the standard asks
  for: its year, month and day of month are the ones given.
\<close>

lemma MakeDay_value:
  assumes "- 1000000 \<le> y" "y \<le> 1000000" "- 10000000 \<le> m" "m \<le> 10000000"
  shows "MakeDay y m d
           = Some (DayFromYear (y + m div 12) + DayFromMonth (y + m div 12) (m mod 12) + d - 1)"
  using assms by (simp add: MakeDay_def Let_def)

lemma MakeDay_civil:
  assumes "0 \<le> m" "m < 12" "- 1000000 \<le> y" "y \<le> 1000000"
  shows "MakeDay y m d = Some (DayFromYear y + DayFromMonth y m + d - 1)"
proof -
  have "m div 12 = 0" "m mod 12 = m" using assms(1,2) by simp_all
  then show ?thesis using assms by (simp add: MakeDay_def)
qed

lemma MakeDay_finds_first_of_month:
  assumes "0 \<le> mn" "mn < 12" "MakeDay ym mn 1 = Some (Day t)"
  shows "YearFromTime t = ym \<and> MonthFromTime t = mn \<and> DateFromTime t = 1"
proof (rule civil_roundtrip [OF assms(1,2)])
  show "(1::int) \<le> 1" by simp
  show "1 \<le> gregorian_days_in_month ym mn"
    using gregorian_days_in_month_range [of ym mn] by simp
  have "mn div 12 = 0" "mn mod 12 = mn" using assms(1,2) by simp_all
  then show "Day t = DayFromYear ym + DayFromMonth ym mn + 1 - 1"
    using assms(3) by (simp add: MakeDay_def split: if_splits)
qed

lemma MakeDay_last_of_month:
  assumes "0 \<le> m" "m < 12" "- 1000000 \<le> y" "y \<le> 1000000"
  shows "MakeDay y (m + 1) 0
           = Some (DayFromYear y + DayFromMonth y m + gregorian_days_in_month y m - 1)"
proof (cases "m = 11")
  case True
  have "MakeDay y 12 0 = Some (DayFromYear (y + 1) - 1)"
    using assms(3,4) by (simp add: MakeDay_def DayFromMonth_def)
  also have "DayFromYear (y + 1) - 1 = DayFromYear y + DaysInYear y - 1"
    by (simp add: DayFromYear_Suc)
  also have "\<dots> = DayFromYear y + DayFromMonth y 11 + gregorian_days_in_month y 11 - 1"
    using DayFromMonth_next [of 11 y] by simp
  finally show ?thesis using True by simp
next
  case False
  then have m1: "0 \<le> m + 1" "m + 1 < 12" using assms by simp_all
  show ?thesis
    using DayFromMonth_next [OF assms(1,2), of y] False
    by (simp add: MakeDay_civil [OF m1 assms(3,4)])
qed

lemma full_year_in_MakeDay_range:
  assumes "- 271820 \<le> (y::int)" "y \<le> 275759"
  shows "- 1000000 \<le> y" and "y \<le> 1000000"
  using assms by simp_all

text \<open>
  The constructor: when the day number it computes is that of day \<open>d\<close> of month \<open>mn\<close> of a
  year \<open>ym\<close> that a \<^verbatim>\<open>Date\<close> holds in full, the object it builds reads back as that date.
\<close>

lemma new_Date_decodes:
  assumes y: "- 271820 \<le> ym" "ym \<le> 275759"
    and m: "0 \<le> mn" "mn < 12"
    and d: "1 \<le> d" "d \<le> gregorian_days_in_month ym mn"
    and md: "MakeDay (MakeFullYear y) m dd
               = Some (DayFromYear ym + DayFromMonth ym mn + d - 1)"
  shows "\<exists>t. new_Date (Some y) (Some m) (Some dd) = Some t
           \<and> Day t = DayFromYear ym + DayFromMonth ym mn + d - 1
           \<and> YearFromTime t = ym \<and> MonthFromTime t = mn \<and> DateFromTime t = d"
proof -
  define n where "n = DayFromYear ym + DayFromMonth ym mn + d - 1"
  define t where "t = MakeDate n 0"
  have k: "0 \<le> DayFromMonth ym mn + d - 1" "DayFromMonth ym mn + d - 1 < DaysInYear ym"
    using month_day_within_year [OF m d] by simp_all
  have rng: "- 100000000 \<le> n" "n < 100000000"
    using year_days_in_range [OF y k] by (simp_all add: n_def)
  have "new_Date (Some y) (Some m) (Some dd) = TimeClip (MakeDate n 0)"
    by (simp add: new_Date_def UTC_def LocalTZA_def Let_def md n_def)
  also have "\<dots> = Some t"
    using TimeClip_in_range [OF rng, of 0] by (simp add: t_def msPerDay_def)
  finally have nd: "new_Date (Some y) (Some m) (Some dd) = Some t" .
  have dt: "Day t = n"
    unfolding t_def by (rule Day_MakeDate) (simp_all add: msPerDay_def)
  have "YearFromTime t = ym \<and> MonthFromTime t = mn \<and> DateFromTime t = d"
    by (rule civil_roundtrip [OF m d]) (simp add: dt n_def)
  with nd dt show ?thesis by (auto simp: n_def)
qed

section \<open>Properties of the widget\<close>

subsection \<open>What \<^verbatim>\<open>render\<close> and \<^verbatim>\<open>attachEvents\<close> produce on an initialised instance\<close>

lemma render_ready:
  assumes "container w = Some el" "options w = Some opts" "currentDate w = Some cd"
  shows "render now w = (Normal, w\<lparr>view := Some (rendered now opts cd)\<rparr>)"
  using assms
  by (simp add: render_def set_innerHTML_def rendered_def filler_count_def day_numbers_def
      first_day_of_def days_in_month_of_def Let_def)

lemma attachEvents_ready:
  assumes "container w = Some el"
  shows "attachEvents w = (Normal, w\<lparr>view := map_option attached (view w)\<rparr>)"
proof -
  have "map_option attached (view w) =
        map_option
          (\<lambda>g. g\<lparr>nav := map (\<lambda>b. b\<lparr>btn_listeners := btn_listeners b + 1\<rparr>) (nav g),
                  cells := map (\<lambda>c. if day_selector c
                                      then c\<lparr>click_listeners := click_listeners c + 1\<rparr>
                                      else c) (cells g)\<rparr>)
          (view w)"
    by (cases "view w") (simp_all add: attached_def)
  then show ?thesis using assms by (simp add: attachEvents_def)
qed

lemma init_ready:
  assumes "container w = Some el" "options w = Some opts" "currentDate w = Some cd"
  shows "init now w = (Normal, w\<lparr>view := Some (attached (rendered now opts cd))\<rparr>)"
proof -
  have c: "container (w\<lparr>view := Some (rendered now opts cd)\<rparr>) = Some el"
    using assms(1) by simp
  show ?thesis
    by (simp add: init_def render_ready [OF assms] and_then_def attachEvents_ready [OF c])
qed

lemma day_selector_filler [simp]: "\<not> day_selector filler_cell"
  by (simp add: day_selector_def filler_cell_def)

lemma day_selector_day_cell [simp]: "day_selector (day_cell opts y m today d)"
  by (simp add: day_selector_def day_cell_def Let_def)

lemma click_listeners_day_cell [simp]: "click_listeners (day_cell opts y m today d) = 0"
  by (simp add: day_cell_def Let_def)

lemma cells_attached_rendered:
  "cells (attached (rendered now opts cd)) =
     replicate (filler_count cd) filler_cell
       @ map (\<lambda>d. (day_cell opts (getFullYear cd) (getMonth cd) (Some now) d)\<lparr>click_listeners := 1\<rparr>)
           (day_numbers cd)"
  by (simp add: attached_def rendered_def)

lemma nav_attached_rendered:
  "nav (attached (rendered now opts cd)) =
     [\<lparr>data_action = ''prev'', btn_listeners = 1\<rparr>, \<lparr>data_action = ''next'', btn_listeners = 1\<rparr>]"
  by (simp add: attached_def rendered_def)

lemma title_attached_rendered:
  "title (attached (rendered now opts cd)) = title_of (getMonth cd) (getFullYear cd)"
  by (simp add: attached_def rendered_def)

lemma digits_nonempty: "digits n \<noteq> []"
  by (subst digits.simps) simp

lemma js_String_nonempty: "js_String v \<noteq> []"
  by (simp add: js_String_def digits_nonempty split: option.splits)

lemma dateStr_nonempty: "dateStr_of y m d \<noteq> []"
  by (simp add: dateStr_of_def js_String_nonempty)

lemma wired_attached_rendered:
  "list_all wired_btn (nav (attached (rendered now opts cd)))
   \<and> list_all wired_cell (cells (attached (rendered now opts cd)))"
proof -
  have f: "wired_cell filler_cell"
    by (simp add: wired_cell_def) (simp add: filler_cell_def)
  have d: "wired_cell ((day_cell opts y m today k)\<lparr>click_listeners := Suc 0\<rparr>)" for y m today k
    by (simp add: wired_cell_def day_selector_def day_cell_def Let_def dateStr_nonempty)
  show ?thesis
    by (auto simp: cells_attached_rendered nav_attached_rendered wired_btn_def
        list_all_iff f d)
qed

lemma ready_init:
  assumes "container w = Some el" "options w = Some opts" "currentDate w = Some cd"
  shows "fst (init now w) = Normal \<and> ready (snd (init now w))"
  using assms wired_attached_rendered [of now opts cd]
  by (simp add: init_ready [OF assms] ready_def)

subsection \<open>The month on display\<close>

lemma getFullYear_Some [simp]: "getFullYear (Some t) = Some (YearFromTime t)"
  by (simp add: getFullYear_def LocalTime_def LocalTZA_def)

lemma getMonth_Some [simp]: "getMonth (Some t) = Some (MonthFromTime t)"
  by (simp add: getMonth_def LocalTime_def LocalTZA_def)

lemma getDate_Some [simp]: "getDate (Some t) = Some (DateFromTime t)"
  by (simp add: getDate_def LocalTime_def LocalTZA_def)

lemma getDay_Some [simp]: "getDay (Some t) = Some (WeekDay t)"
  by (simp add: getDay_def LocalTime_def LocalTZA_def)

lemma getMonth_range:
  assumes "getMonth cd = Some m"
  shows "0 \<le> m" and "m < 12"
proof -
  obtain t where "cd = Some t" "m = MonthFromTime t"
    using assms by (cases cd) (auto simp: getMonth_def LocalTime_def LocalTZA_def)
  then show "0 \<le> m" and "m < 12"
    using MonthFromTime_range [of t] by simp_all
qed

lemma days_in_month_js:
  assumes cd: "getFullYear cd = Some y" "getMonth cd = Some m"
    and yr: "- 271820 \<le> MakeFullYear y" "MakeFullYear y \<le> 275759"
  shows "days_in_month_of cd = Some (gregorian_days_in_month (MakeFullYear y) m)"
proof -
  let ?yr = "MakeFullYear y"
  let ?n = "gregorian_days_in_month ?yr m"
  note m = getMonth_range [OF cd(2)]
  have n: "1 \<le> ?n" "?n \<le> ?n"
    using gregorian_days_in_month_range [of ?yr m] by simp_all
  obtain t where t: "new_Date (Some y) (Some (m + 1)) (Some 0) = Some t" "DateFromTime t = ?n"
    using new_Date_decodes
        [OF yr m n MakeDay_last_of_month [OF m full_year_in_MakeDay_range [OF yr]]]
    by blast
  then show ?thesis
    using cd by (simp add: days_in_month_of_def num_add_def)
qed

lemma gregorian_weekday_first:
  assumes "0 \<le> m" "m < 12"
  shows "gregorian_weekday y m 1 = (DayFromYear y + DayFromMonth y m + 4) mod 7"
  by (simp add: gregorian_weekday_def days_before_year_eq days_before_month_eq [OF assms]
      add.commute add.left_commute)

lemma first_day_js:
  assumes cd: "getFullYear cd = Some y" "getMonth cd = Some m"
    and yr: "- 271820 \<le> MakeFullYear y" "MakeFullYear y \<le> 275759"
  shows "first_day_of cd = Some (gregorian_weekday (MakeFullYear y) m 1)"
proof -
  let ?yr = "MakeFullYear y"
  note m = getMonth_range [OF cd(2)]
  have d: "(1::int) \<le> 1" "1 \<le> gregorian_days_in_month ?yr m"
    using gregorian_days_in_month_range [of ?yr m] by simp_all
  obtain t where t: "new_Date (Some y) (Some m) (Some 1) = Some t"
      "Day t = DayFromYear ?yr + DayFromMonth ?yr m + 1 - 1"
    using new_Date_decodes [OF yr m d MakeDay_civil [OF m full_year_in_MakeDay_range [OF yr]]]
    by blast
  show ?thesis
    using cd t by (simp add: first_day_of_def WeekDay_def gregorian_weekday_first [OF m])
qed

lemma gregorian_weekday_range: "0 \<le> gregorian_weekday y m d \<and> gregorian_weekday y m d \<le> 6"
  by (simp add: gregorian_weekday_def)

lemma leap_two_digit_year:
  assumes "1 \<le> y" "y \<le> 99"
  shows "is_leap_year (1900 + y) = is_leap_year y"
proof -
  have a: "(1900 + y) mod 4 = y mod 4"
    using mod_shift [of "1900 + y" 4 475] by simp
  have b: "(1900 + y) mod 100 = y mod 100"
    using mod_shift [of "1900 + y" 100 19] by simp
  have c: "y mod 100 = y" using assms by simp
  show ?thesis
    using assms by (simp add: is_leap_year_def a b c)
qed

lemma days_in_month_full_year:
  assumes "y \<noteq> 0"
  shows "gregorian_days_in_month (MakeFullYear y) m = gregorian_days_in_month y m"
proof (cases "1 \<le> y \<and> y \<le> 99")
  case True
  then show ?thesis
    using leap_two_digit_year [of y]
    by (simp add: MakeFullYear_def gregorian_days_in_month_def)
next
  case False
  then show ?thesis using assms by (auto simp: MakeFullYear_def)
qed

lemma full_year_in_range:
  assumes "- 271820 \<le> y" "y \<le> 275759"
  shows "- 271820 \<le> MakeFullYear y" and "MakeFullYear y \<le> 275759"
  using assms by (simp_all add: MakeFullYear_def)

lemma filter_day_cells:
  "filter day_selector (cells (rendered now opts cd)) =
     map (day_cell opts (getFullYear cd) (getMonth cd) (Some now)) (day_numbers cd)"
  by (simp add: rendered_def filter_map comp_def)

lemma day_text_day_cell [simp]: "day_text (day_cell opts y m today d) = Some d"
  by (simp add: day_cell_def Let_def)

lemma data_date_day_cell [simp]: "data_date (day_cell opts y m today d) = Some (dateStr_of y m d)"
  by (simp add: day_cell_def Let_def)

lemma day_texts_attached_rendered:
  "map day_text (filter day_selector (cells (attached (rendered now opts cd))))
     = map Some (day_numbers cd)"
proof -
  have "day_selector ((day_cell opts y m today d)\<lparr>click_listeners := n\<rparr>)" for y m today d n
    by (simp add: day_selector_def day_cell_def Let_def)
  then show ?thesis
    by (simp add: cells_attached_rendered filter_map comp_def)
qed

subsection \<open>The constructor and \<^verbatim>\<open>goToMonth\<close> on a container that is found\<close>

lemma JournalCalendar_found:
  assumes "resolve q c = Inr (Some el)"
  shows "JournalCalendar q now c a =
           (Normal, \<lparr>container = Some el, options = Some (defaults a),
                     currentDate = Some (Some now), selectedDate = None,
                     view = Some (attached (rendered now (defaults a) (Some now))),
                     trace = []\<rparr>)"
proof -
  let ?w = "blank\<lparr>container := Some el, options := Some (defaults a),
                  currentDate := Some (Some now), selectedDate := None\<rparr>"
  have "JournalCalendar q now c a = init now ?w"
    using assms by (simp add: JournalCalendar_def)
  also have "\<dots> = (Normal, ?w\<lparr>view := Some (attached (rendered now (defaults a) (Some now)))\<rparr>)"
    by (rule init_ready) simp_all
  finally show ?thesis by (simp add: blank_def)
qed

lemma goToMonth_ready:
  assumes "container w = Some el" "options w = Some opts" "currentDate w = Some cd"
  shows "goToMonth now y m w =
           (Normal, w\<lparr>currentDate := Some (new_Date (Some y) (Some m) (Some 1)),
                      view := Some (attached (rendered now opts (new_Date (Some y) (Some m) (Some 1))))\<rparr>)"
proof -
  let ?w = "w\<lparr>currentDate := Some (new_Date (Some y) (Some m) (Some 1))\<rparr>"
  have "goToMonth now y m w = init now ?w"
    by (simp add: goToMonth_def init_def)
  also have "\<dots> = (Normal, ?w\<lparr>view := Some (attached (rendered now opts (new_Date (Some y) (Some m) (Some 1))))\<rparr>)"
    by (rule init_ready) (simp_all add: assms)
  finally show ?thesis by simp
qed

lemma new_Date_first_of_month:
  assumes "- 271820 \<le> MakeFullYear y + m div 12" "MakeFullYear y + m div 12 \<le> 275759"
    and "- 1000000 \<le> MakeFullYear y" "MakeFullYear y \<le> 1000000"
    and "- 10000000 \<le> m" "m \<le> 10000000"
  shows "\<exists>t. new_Date (Some y) (Some m) (Some 1) = Some t
           \<and> YearFromTime t = MakeFullYear y + m div 12
           \<and> MonthFromTime t = m mod 12 \<and> DateFromTime t = 1"
proof -
  have m: "0 \<le> m mod 12" "m mod 12 < 12" by simp_all
  have d: "(1::int) \<le> 1" "1 \<le> gregorian_days_in_month (MakeFullYear y + m div 12) (m mod 12)"
    using gregorian_days_in_month_range [of "MakeFullYear y + m div 12" "m mod 12"] by simp_all
  show ?thesis
    using new_Date_decodes [OF assms(1,2) m d MakeDay_value [OF assms(3,4,5,6)]] by blast
qed

subsection \<open>The instance on the sample page\<close>

lemma on_page_eq:
  "on_page now a =
     \<lparr>container = Some 0, options = Some (defaults a), currentDate = Some (Some now),
      selectedDate = None, view = Some (attached (rendered now (defaults a) (Some now))),
      trace = []\<rparr>"
proof -
  have "resolve page (Selector ''#calendar'') = Inr (Some 0)"
    by (simp add: resolve_def page_def)
  from JournalCalendar_found [OF this] show ?thesis by (simp add: on_page_def)
qed

text \<open>Noon of 15 February 2024, of 15 February 2023 and of 31 January 2024.\<close>

lemma date_2024_02_15:
  "YearFromTime 1707998400000 = 2024 \<and> MonthFromTime 1707998400000 = 1
   \<and> DateFromTime 1707998400000 = 15"
  by (rule civil_roundtrip)
     (simp_all add: Day_def msPerDay_def DayFromYear_def DayFromMonth_def DaysInYear_def
       gregorian_days_in_month_def is_leap_year_def)

lemma date_2023_02_15:
  "YearFromTime 1676462400000 = 2023 \<and> MonthFromTime 1676462400000 = 1
   \<and> DateFromTime 1676462400000 = 15"
  by (rule civil_roundtrip)
     (simp_all add: Day_def msPerDay_def DayFromYear_def DayFromMonth_def DaysInYear_def
       gregorian_days_in_month_def is_leap_year_def)

lemma date_2024_01_31:
  "YearFromTime 1706702400000 = 2024 \<and> MonthFromTime 1706702400000 = 0
   \<and> DateFromTime 1706702400000 = 31"
  by (rule civil_roundtrip)
     (simp_all add: Day_def msPerDay_def DayFromYear_def DayFromMonth_def DaysInYear_def
       gregorian_days_in_month_def is_leap_year_def)

subsection \<open>Claim C3: the day cells of a month\<close>

text \<open>
  Claim C3: for every valid (year, zero-based month) pair, \<^verbatim>\<open>render\<close> emits exactly as many
  non-filler day cells as the month has days in the Gregorian calendar, leap-year February
  included. The code does not do so for the year numbered 0. \<^verbatim>\<open>goToMonth(100, -1199)\<close>
  puts February of the year 0 on display: \<^verbatim>\<open>getCurrentMonth()\<close> returns year 0 and month 1
  and the title reads "February 0". The year 0 is a leap year (it is divisible by 400), so
  the month has 29 days, but the grid has the 28 day cells 1 to 28: \<^verbatim>\<open>render\<close> counts the
  days with \<^verbatim>\<open>new Date(0, 2, 0)\<close>, and the constructor of \<^verbatim>\<open>Date\<close> reads the year 0 as 1900,
  which is not a leap year.
\<close>

theorem february_of_year_0_renders_28_day_cells:
  "fst (goToMonth 1706702400000 100 (- 1199) (on_page 1706702400000 no_options)) = Normal
   \<and> getCurrentMonth (snd (goToMonth 1706702400000 100 (- 1199) (on_page 1706702400000 no_options)))
       = Inr (JObject [(''year'', JNumber (Some 0)), (''month'', JNumber (Some 1))])
   \<and> map_option title
         (view (snd (goToMonth 1706702400000 100 (- 1199) (on_page 1706702400000 no_options))))
       = Some ''February 0''
   \<and> map_option (\<lambda>g. map day_text (filter day_selector (cells g)))
         (view (snd (goToMonth 1706702400000 100 (- 1199) (on_page 1706702400000 no_options))))
       = Some (map Some [1..28])
   \<and> gregorian_days_in_month 0 1 = 29"
proof -
  obtain t where t: "new_Date (Some 100) (Some (- 1199)) (Some 1) = Some t"
      "YearFromTime t = 0" "MonthFromTime t = 1"
    using new_Date_first_of_month [of 100 "- 1199"] by (auto simp: MakeFullYear_def)
  let ?w = "on_page 1706702400000 no_options"
  let ?g = "attached (rendered 1706702400000 (defaults no_options) (Some t))"
  let ?w' = "?w\<lparr>currentDate := Some (Some t), view := Some ?g\<rparr>"
  have go: "goToMonth 1706702400000 100 (- 1199) ?w = (Normal, ?w')"
    using goToMonth_ready [of ?w 0 "defaults no_options" "Some 1706702400000" 1706702400000
        100 "- 1199"]
    by (simp add: on_page_eq t)
  have cm: "getCurrentMonth ?w'
              = Inr (JObject [(''year'', JNumber (Some 0)), (''month'', JNumber (Some 1))])"
    by (simp add: getCurrentMonth_def t)
  have ti: "title ?g = ''February 0''"
    by (simp add: title_attached_rendered t title_of_def monthNames_def js_String_def
        digits.simps digit_char_def)
  have "days_in_month_of (Some t) = Some (gregorian_days_in_month (MakeFullYear 0) 1)"
    by (rule days_in_month_js) (simp_all add: t MakeFullYear_def)
  then have dn: "day_numbers (Some t) = [1..28]"
    by (simp add: day_numbers_def MakeFullYear_def gregorian_days_in_month_def is_leap_year_def)
  have ds: "map day_text (filter day_selector (cells ?g)) = map Some [1..28]"
    by (simp only: day_texts_attached_rendered dn)
  have ref: "gregorian_days_in_month 0 1 = 29"
    by (simp add: gregorian_days_in_month_def is_leap_year_def)
  show ?thesis
    unfolding go using cm ti ds ref by simp
qed

subsection \<open>The day cells of a month of any other year\<close>

text \<open>
  For every month on display of a year other than 0, from -271820 to 275759 (the years a
  \<^verbatim>\<open>Date\<close> holds in full), \<^verbatim>\<open>render\<close> emits exactly as many non-filler day cells as the month
  has days in the reference calendar, leap-year February included, and they are the days 1
  to that count in order. The count comes from the date arithmetic (day 0 of the next
  month), not from a table. For the years 1 to 99 the constructor of \<^verbatim>\<open>Date\<close> counts the
  days of the same month of 1901 to 1999, which has as many.
\<close>

theorem day_cells_match_gregorian_month_outside_year_0:
  assumes "container w = Some el" "options w = Some opts" "currentDate w = Some cd"
    and "getFullYear cd = Some y" "getMonth cd = Some m"
    and "y \<noteq> 0" "- 271820 \<le> y" "y \<le> 275759"
  shows "\<exists>g. render now w = (Normal, w\<lparr>view := Some g\<rparr>)
           \<and> length (filter day_selector (cells g)) = nat (gregorian_days_in_month y m)
           \<and> map day_text (filter day_selector (cells g))
               = map Some [1..gregorian_days_in_month y m]"
proof -
  note yr = full_year_in_range [OF assms(7,8)]
  have dn: "day_numbers cd = [1..gregorian_days_in_month y m]"
    using days_in_month_js [OF assms(4,5) yr] days_in_month_full_year [OF assms(6)]
    by (simp add: day_numbers_def)
  show ?thesis
  proof (intro exI conjI)
    show "render now w = (Normal, w\<lparr>view := Some (rendered now opts cd)\<rparr>)"
      by (rule render_ready [OF assms(1,2,3)])
    show "length (filter day_selector (cells (rendered now opts cd)))
            = nat (gregorian_days_in_month y m)"
      by (simp add: filter_day_cells dn)
    show "map day_text (filter day_selector (cells (rendered now opts cd)))
            = map Some [1..gregorian_days_in_month y m]"
      by (simp add: filter_day_cells dn comp_def)
  qed
qed

text \<open>
  Witness: an instance constructed in February 2024 renders 29 day cells, one constructed
  in February 2023 renders 28.
\<close>

theorem day_cells_match_gregorian_month_outside_year_0_witness:
  "(\<exists>g. render 1707998400000 (on_page 1707998400000 no_options)
              = (Normal, (on_page 1707998400000 no_options)\<lparr>view := Some g\<rparr>)
          \<and> length (filter day_selector (cells g)) = 29)
   \<and> (\<exists>g. render 1676462400000 (on_page 1676462400000 no_options)
              = (Normal, (on_page 1676462400000 no_options)\<lparr>view := Some g\<rparr>)
          \<and> length (filter day_selector (cells g)) = 28)"
proof -
  have a: "gregorian_days_in_month 2024 1 = 29" "gregorian_days_in_month 2023 1 = 28"
    by (simp_all add: gregorian_days_in_month_def is_leap_year_def)
  show ?thesis
    using
      day_cells_match_gregorian_month_outside_year_0 [of "on_page 1707998400000 no_options"
        0 "defaults no_options" "Some 1707998400000" 2024 1 1707998400000]
      day_cells_match_gregorian_month_outside_year_0 [of "on_page 1676462400000 no_options"
        0 "defaults no_options" "Some 1676462400000" 2023 1 1676462400000]
    by (simp add: on_page_eq date_2024_02_15 date_2023_02_15 a) blast
qed

subsection \<open>Claim C4: the filler cells before day 1\<close>

lemma click_cell_no_listener: "click_listeners c = 0 \<Longrightarrow> click_cell c w = w"
  by (simp add: click_cell_def)

lemma list_all_day_cells:
  "list_all day_selector
     (map (\<lambda>d. (day_cell opts y m today d)\<lparr>click_listeners := 1\<rparr>) ds)"
  by (simp add: list_all_iff day_selector_def day_cell_def Let_def)

lemma goToMonth_100_minus_1:
  "\<exists>t. new_Date (Some 100) (Some (- 1)) (Some 1) = Some t
      \<and> YearFromTime t = 99 \<and> MonthFromTime t = 11 \<and> DateFromTime t = 1"
  using new_Date_first_of_month [of 100 "- 1"] by (simp add: MakeFullYear_def)

text \<open>
  Claim C4: for every displayed month, the number of leading filler cells equals the
  weekday index (0 Sunday to 6 Saturday) of the first day of that month. The code does not
  do so for the years 0 to 99. \<^verbatim>\<open>goToMonth(100, -1)\<close> puts December of the year 99 on
  display: \<^verbatim>\<open>getCurrentMonth()\<close> returns year 99 and month 11 and the title reads
  "December 99". 1 December 99 was a Tuesday (index 2), but the grid starts with three
  filler cells before the day cells: \<^verbatim>\<open>render\<close> builds \<^verbatim>\<open>new Date(99, 11, 1)\<close> for the first
  day of the month, which the constructor of \<^verbatim>\<open>Date\<close> reads as 1 December 1999, a Wednesday.
\<close>

theorem december_99_laid_out_as_december_1999:
  "fst (goToMonth 1706702400000 100 (- 1) (on_page 1706702400000 no_options)) = Normal
   \<and> getCurrentMonth (snd (goToMonth 1706702400000 100 (- 1) (on_page 1706702400000 no_options)))
       = Inr (JObject [(''year'', JNumber (Some 99)), (''month'', JNumber (Some 11))])
   \<and> map_option title
         (view (snd (goToMonth 1706702400000 100 (- 1) (on_page 1706702400000 no_options))))
       = Some ''December 99''
   \<and> map_option (\<lambda>g. takeWhile (\<lambda>c. \<not> day_selector c) (cells g))
         (view (snd (goToMonth 1706702400000 100 (- 1) (on_page 1706702400000 no_options))))
       = Some [filler_cell, filler_cell, filler_cell]
   \<and> gregorian_weekday 99 11 1 = 2
   \<and> gregorian_weekday 1999 11 1 = 3"
proof -
  obtain t where t: "new_Date (Some 100) (Some (- 1)) (Some 1) = Some t"
      "YearFromTime t = 99" "MonthFromTime t = 11"
    using goToMonth_100_minus_1 by blast
  let ?w = "on_page 1706702400000 no_options"
  let ?g = "attached (rendered 1706702400000 (defaults no_options) (Some t))"
  let ?w' = "?w\<lparr>currentDate := Some (Some t), view := Some ?g\<rparr>"
  have go: "goToMonth 1706702400000 100 (- 1) ?w = (Normal, ?w')"
    using goToMonth_ready [of ?w 0 "defaults no_options" "Some 1706702400000" 1706702400000 100 "- 1"]
    by (simp add: on_page_eq t)
  have cm: "getCurrentMonth ?w'
              = Inr (JObject [(''year'', JNumber (Some 99)), (''month'', JNumber (Some 11))])"
    by (simp add: getCurrentMonth_def t)
  have d99: "digits 99 = ''99''"
    by (simp add: digits.simps [of 99] digits.simps [of 9] digit_char_def)
  have ti: "title ?g = ''December 99''"
    by (simp add: title_attached_rendered t title_of_def monthNames_def js_String_def d99)
  have "first_day_of (Some t) = Some (gregorian_weekday (MakeFullYear 99) 11 1)"
    by (rule first_day_js) (simp_all add: t MakeFullYear_def)
  also have "\<dots> = Some 3"
    by (simp add: MakeFullYear_def gregorian_weekday_first DayFromYear_def DayFromMonth_def
        DaysInYear_def)
  finally have fc: "filler_count (Some t) = 3"
    by (simp add: filler_count_def)
  have ds: "day_selector ((day_cell opts y m today d)\<lparr>click_listeners := n\<rparr>)"
    for opts y m today d n
    by (simp add: day_selector_def day_cell_def Let_def)
  have tw: "takeWhile (\<lambda>c. \<not> day_selector c) (replicate 3 filler_cell @ map f ks)
              = [filler_cell, filler_cell, filler_cell]"
    if "\<And>k. day_selector (f k)" for f :: "int \<Rightarrow> cell" and ks
    using that by (cases ks) (simp_all add: numeral_3_eq_3)
  have cs: "takeWhile (\<lambda>c. \<not> day_selector c) (cells ?g) = [filler_cell, filler_cell, filler_cell]"
    unfolding cells_attached_rendered fc by (rule tw) (rule ds)
  have wd: "gregorian_weekday 99 11 1 = 2" "gregorian_weekday 1999 11 1 = 3"
    by (simp_all add: gregorian_weekday_first DayFromYear_def DayFromMonth_def DaysInYear_def)
  show ?thesis
    unfolding go using cm ti cs wd by simp
qed

subsection \<open>The filler cells of a month of a year outside 0 to 99\<close>

text \<open>
  For every month on display whose year is not one of 0 to 99 (and is a year a \<^verbatim>\<open>Date\<close>
  holds in full), the cells written by \<^verbatim>\<open>render\<close> and wired by \<^verbatim>\<open>attachEvents\<close> start with as
  many filler cells as the weekday index (0 Sunday to 6 Saturday) of the first day of that
  month in the reference calendar, followed by non-filler cells only. A filler cell has no
  \<^verbatim>\<open>data-date\<close> and no listener, and a click on it changes nothing.
\<close>

theorem filler_cells_match_first_weekday:
  assumes "container w = Some el" "options w = Some opts" "currentDate w = Some cd"
    and "getFullYear cd = Some y" "getMonth cd = Some m"
    and "y < 0 \<or> 99 < y" and "- 271820 \<le> y" "y \<le> 275759"
  shows "\<exists>g w'. init now w = (Normal, w') \<and> view w' = Some g
           \<and> (\<exists>ds. cells g = replicate (nat (gregorian_weekday y m 1)) filler_cell @ ds
                  \<and> list_all day_selector ds)
           \<and> 0 \<le> gregorian_weekday y m 1 \<and> gregorian_weekday y m 1 \<le> 6
           \<and> data_date filler_cell = None \<and> click_listeners filler_cell = 0
           \<and> \<not> day_selector filler_cell
           \<and> click_cell filler_cell w' = w'"
proof -
  have fy: "MakeFullYear y = y"
    using assms(6) by (auto simp: MakeFullYear_def)
  have "first_day_of cd = Some (gregorian_weekday y m 1)"
    using first_day_js [OF assms(4,5)] assms(7,8) by (simp add: fy)
  then have fc: "filler_count cd = nat (gregorian_weekday y m 1)"
    by (simp add: filler_count_def)
  let ?w' = "w\<lparr>view := Some (attached (rendered now opts cd))\<rparr>"
  have "init now w = (Normal, ?w')"
    by (rule init_ready [OF assms(1,2,3)])
  moreover have "view ?w' = Some (attached (rendered now opts cd))"
    by simp
  moreover have "\<exists>ds. cells (attached (rendered now opts cd))
                        = replicate (nat (gregorian_weekday y m 1)) filler_cell @ ds
                      \<and> list_all day_selector ds"
    using list_all_day_cells by (simp add: cells_attached_rendered fc)
  moreover have "data_date filler_cell = None" "click_listeners filler_cell = 0"
    by (simp_all add: filler_cell_def)
  moreover have "click_cell filler_cell ?w' = ?w'"
    by (rule click_cell_no_listener) (simp add: filler_cell_def)
  ultimately show ?thesis
    using gregorian_weekday_range [of y m 1] day_selector_filler by blast
qed

text \<open>Witness: constructed on 31 January 2024; 1 January 2024 was a Monday, one filler.\<close>

lemma weekday_2024_01_01: "gregorian_weekday 2024 0 1 = 1"
  by (simp add: gregorian_weekday_first DayFromYear_def DayFromMonth_def)

theorem filler_cells_match_first_weekday_witness:
  "(\<exists>g w'. init 1706702400000 (on_page 1706702400000 no_options) = (Normal, w')
       \<and> view w' = Some g
       \<and> (\<exists>ds. cells g = replicate 1 filler_cell @ ds \<and> list_all day_selector ds)
       \<and> data_date filler_cell = None
       \<and> click_cell filler_cell w' = w')"
proof -
  have "\<exists>g w'. init 1706702400000 (on_page 1706702400000 no_options) = (Normal, w')
          \<and> view w' = Some g
          \<and> (\<exists>ds. cells g = replicate (nat (gregorian_weekday 2024 0 1)) filler_cell @ ds
                 \<and> list_all day_selector ds)
          \<and> 0 \<le> gregorian_weekday 2024 0 1 \<and> gregorian_weekday 2024 0 1 \<le> 6
          \<and> data_date filler_cell = None \<and> click_listeners filler_cell = 0
          \<and> \<not> day_selector filler_cell
          \<and> click_cell filler_cell w' = w'"
    by (rule filler_cells_match_first_weekday [where el = 0 and opts = "defaults no_options"
          and cd = "Some 1706702400000"])
       (simp_all add: on_page_eq date_2024_01_31)
  then show ?thesis
    by (simp add: weekday_2024_01_01) blast
qed

subsection \<open>Claim C7: \<^verbatim>\<open>goToMonth\<close>\<close>

text \<open>
  Claim C7, as the code has it. For every pair of arguments for which the first of the
  month is a \<^verbatim>\<open>Date\<close> (a year of at most 1,000,000 and a month of at most 10,000,000 in
  absolute value, whose carry puts the year among those a \<^verbatim>\<open>Date\<close> holds in full, -271820 to
  275759), \<^verbatim>\<open>goToMonth(year, month)\<close> completes, puts the month \<open>month mod 12\<close> of the year
  \<open>year + month div 12\<close> on display (what \<^verbatim>\<open>getCurrentMonth\<close> returns), writes the grid of that
  month into the container with its listeners, and calls nothing: the trace of callback
  calls, the options and the selected date are unchanged. The year arguments 0 to 99 are
  left out of this statement, which says nothing about them.
\<close>

theorem goToMonth_sets_displayed_month:
  assumes "container w = Some el" "options w = Some opts" "currentDate w = Some cd"
    and "year < 0 \<or> 99 < year"
    and "- 1000000 \<le> year" "year \<le> 1000000" "- 10000000 \<le> month" "month \<le> 10000000"
    and "- 271820 \<le> year + month div 12" "year + month div 12 \<le> 275759"
  shows "\<exists>w' cd'. goToMonth now year month w = (Normal, w')
           \<and> getCurrentMonth w'
               = Inr (JObject [(''year'', JNumber (Some (year + month div 12))),
                               (''month'', JNumber (Some (month mod 12)))])
           \<and> currentDate w' = Some cd'
           \<and> view w' = Some (attached (rendered now opts cd'))
           \<and> trace w' = trace w \<and> options w' = options w
           \<and> selectedDate w' = selectedDate w \<and> container w' = container w"
proof -
  have fy: "MakeFullYear year = year"
    using assms(4) by (auto simp: MakeFullYear_def)
  obtain t where t: "new_Date (Some year) (Some month) (Some 1) = Some t"
      "YearFromTime t = year + month div 12" "MonthFromTime t = month mod 12"
    using new_Date_first_of_month [of year month] assms(5,6,7,8,9,10) by (auto simp: fy)
  let ?w' = "w\<lparr>currentDate := Some (Some t),
               view := Some (attached (rendered now opts (Some t)))\<rparr>"
  have "goToMonth now year month w = (Normal, ?w')"
    using goToMonth_ready [OF assms(1,2,3), of now year month] by (simp add: t)
  moreover have "getCurrentMonth ?w'
      = Inr (JObject [(''year'', JNumber (Some (year + month div 12))),
                      (''month'', JNumber (Some (month mod 12)))])"
    by (simp add: getCurrentMonth_def t)
  moreover have "currentDate ?w' = Some (Some t)"
    "view ?w' = Some (attached (rendered now opts (Some t)))"
    "trace ?w' = trace w" "options ?w' = options w"
    "selectedDate ?w' = selectedDate w" "container ?w' = container w"
    by simp_all
  ultimately show ?thesis by blast
qed

text \<open>
  Witness: \<^verbatim>\<open>goToMonth(2025, 5)\<close> on an instance that has an \<^verbatim>\<open>onMonthChange\<close> callback
  shows June 2025 and leaves the trace empty; \<^verbatim>\<open>goToMonth(2024, 14)\<close> carries the month into
  the year and shows March 2025.
\<close>

theorem goToMonth_sets_displayed_month_witness:
  "(\<exists>w'. goToMonth 1706702400000 2025 5 (on_page 1706702400000 with_month_callback) = (Normal, w')
      \<and> getCurrentMonth w'
          = Inr (JObject [(''year'', JNumber (Some 2025)), (''month'', JNumber (Some 5))])
      \<and> trace w' = [])
   \<and> (\<exists>w'. goToMonth 1706702400000 2024 14 (on_page 1706702400000 with_month_callback) = (Normal, w')
      \<and> getCurrentMonth w'
          = Inr (JObject [(''year'', JNumber (Some 2025)), (''month'', JNumber (Some 2))])
      \<and> trace w' = [])"
proof -
  have a: "\<exists>w' cd'. goToMonth 1706702400000 2025 5 (on_page 1706702400000 with_month_callback)
            = (Normal, w')
          \<and> getCurrentMonth w'
              = Inr (JObject [(''year'', JNumber (Some (2025 + 5 div 12))),
                              (''month'', JNumber (Some (5 mod 12)))])
          \<and> currentDate w' = Some cd'
          \<and> view w' = Some (attached (rendered 1706702400000 (defaults with_month_callback) cd'))
          \<and> trace w' = trace (on_page 1706702400000 with_month_callback)
          \<and> options w' = options (on_page 1706702400000 with_month_callback)
          \<and> selectedDate w' = selectedDate (on_page 1706702400000 with_month_callback)
          \<and> container w' = container (on_page 1706702400000 with_month_callback)"
    by (rule goToMonth_sets_displayed_month [where el = 0 and cd = "Some 1706702400000"])
       (simp_all add: on_page_eq)
  have b: "\<exists>w' cd'. goToMonth 1706702400000 2024 14 (on_page 1706702400000 with_month_callback)
            = (Normal, w')
          \<and> getCurrentMonth w'
              = Inr (JObject [(''year'', JNumber (Some (2024 + 14 div 12))),
                              (''month'', JNumber (Some (14 mod 12)))])
          \<and> currentDate w' = Some cd'
          \<and> view w' = Some (attached (rendered 1706702400000 (defaults with_month_callback) cd'))
          \<and> trace w' = trace (on_page 1706702400000 with_month_callback)
          \<and> options w' = options (on_page 1706702400000 with_month_callback)
          \<and> selectedDate w' = selectedDate (on_page 1706702400000 with_month_callback)
          \<and> container w' = container (on_page 1706702400000 with_month_callback)"
    by (rule goToMonth_sets_displayed_month [where el = 0 and cd = "Some 1706702400000"])
       (simp_all add: on_page_eq)
  have ta: "trace (on_page 1706702400000 with_month_callback) = []"
    by (simp add: on_page_eq)
  from a obtain wa where wa:
      "goToMonth 1706702400000 2025 5 (on_page 1706702400000 with_month_callback) = (Normal, wa)"
      "getCurrentMonth wa
         = Inr (JObject [(''year'', JNumber (Some 2025)), (''month'', JNumber (Some 5))])"
      "trace wa = []"
    by (auto simp: ta)
  from b obtain wb where wb:
      "goToMonth 1706702400000 2024 14 (on_page 1706702400000 with_month_callback) = (Normal, wb)"
      "getCurrentMonth wb
         = Inr (JObject [(''year'', JNumber (Some 2025)), (''month'', JNumber (Some 2))])"
      "trace wb = []"
    by (auto simp: ta)
  from wa wb show ?thesis by blast
qed

text \<open>
  Counter-example to the claim as stated: \<^verbatim>\<open>goToMonth(275761, 0)\<close> does not put January of
  the year 275761 on display. A \<^verbatim>\<open>Date\<close> holds no time beyond 100,000,000 days from 1 January
  1970, which ends in September 275760; \<^verbatim>\<open>new Date(275761, 0, 1)\<close> is an invalid date,
  \<^verbatim>\<open>getCurrentMonth()\<close> returns \<^verbatim>\<open>NaN\<close> for year and month, and the grid has the title
  "undefined NaN" and no cell.
\<close>

lemma new_Date_275761: "new_Date (Some 275761) (Some 0) (Some 1) = None"
  by (simp add: new_Date_def MakeFullYear_def MakeDay_def DayFromYear_def DayFromMonth_def
      MakeDate_def UTC_def LocalTZA_def TimeClip_def msPerDay_def Let_def)

theorem goToMonth_sets_displayed_month_counterexample:
  "fst (goToMonth 1706702400000 275761 0 (on_page 1706702400000 no_options)) = Normal
   \<and> getCurrentMonth (snd (goToMonth 1706702400000 275761 0 (on_page 1706702400000 no_options)))
       = Inr (JObject [(''year'', JNumber None), (''month'', JNumber None)])
   \<and> getCurrentMonth (snd (goToMonth 1706702400000 275761 0 (on_page 1706702400000 no_options)))
       \<noteq> Inr (JObject [(''year'', JNumber (Some 275761)), (''month'', JNumber (Some 0))])
   \<and> map_option title
         (view (snd (goToMonth 1706702400000 275761 0 (on_page 1706702400000 no_options))))
       = Some ''undefined NaN''
   \<and> map_option cells
         (view (snd (goToMonth 1706702400000 275761 0 (on_page 1706702400000 no_options))))
       = Some []"
proof -
  let ?w = "on_page 1706702400000 no_options"
  let ?g = "attached (rendered 1706702400000 (defaults no_options) None)"
  let ?w' = "?w\<lparr>currentDate := Some None, view := Some ?g\<rparr>"
  have go: "goToMonth 1706702400000 275761 0 ?w = (Normal, ?w')"
    using goToMonth_ready [of ?w 0 "defaults no_options" "Some 1706702400000" 1706702400000
        275761 0]
    by (simp add: on_page_eq new_Date_275761)
  have cm: "getCurrentMonth ?w'
              = Inr (JObject [(''year'', JNumber None), (''month'', JNumber None)])"
    by (simp add: getCurrentMonth_def getFullYear_def getMonth_def)
  have ti: "title ?g = ''undefined NaN''"
    by (simp add: title_attached_rendered title_of_def js_String_def getFullYear_def getMonth_def)
  have "first_day_of None = None" "days_in_month_of None = None"
    by (simp_all add: first_day_of_def days_in_month_of_def getFullYear_def getMonth_def
        num_add_def new_Date_def getDay_def getDate_def)
  then have cs: "cells ?g = []"
    by (simp add: cells_attached_rendered filler_count_def day_numbers_def)
  show ?thesis
    unfolding go using cm ti cs by simp
qed

subsection \<open>\<^verbatim>\<open>goToMonth\<close> with a year argument from 0 to 99\<close>

text \<open>
  \<^verbatim>\<open>goToMonth(50, 0)\<close> does not put January of the year 50 on display but January 1950:
  \<^verbatim>\<open>new Date(50, 0, 1)\<close> reads a year from 0 to 99 as 1900 to 1999.
\<close>

theorem goToMonth_50_shows_1950:
  "fst (goToMonth 1706702400000 50 0 (on_page 1706702400000 no_options)) = Normal
   \<and> getCurrentMonth (snd (goToMonth 1706702400000 50 0 (on_page 1706702400000 no_options)))
       = Inr (JObject [(''year'', JNumber (Some 1950)), (''month'', JNumber (Some 0))])"
proof -
  obtain t where t: "new_Date (Some 50) (Some 0) (Some 1) = Some t"
      "YearFromTime t = 1950" "MonthFromTime t = 0"
    using new_Date_first_of_month [of 50 0] by (auto simp: MakeFullYear_def)
  let ?w = "on_page 1706702400000 no_options"
  let ?w' = "?w\<lparr>currentDate := Some (Some t),
                view := Some (attached (rendered 1706702400000 (defaults no_options) (Some t)))\<rparr>"
  have go: "goToMonth 1706702400000 50 0 ?w = (Normal, ?w')"
    using goToMonth_ready [of ?w 0 "defaults no_options" "Some 1706702400000" 1706702400000 50 0]
    by (simp add: on_page_eq t)
  have cm: "getCurrentMonth ?w'
              = Inr (JObject [(''year'', JNumber (Some 1950)), (''month'', JNumber (Some 0))])"
    by (simp add: getCurrentMonth_def t)
  show ?thesis
    unfolding go using cm by simp
qed

subsection \<open>Clicks on an initialised instance\<close>

lemma nav_listener_ready:
  assumes "container w = Some el" "options w = Some opts" "currentDate w = Some cd"
    and "action = ''prev'' \<or> action = ''next''"
    and "cd' = setMonth (num_add (getMonth cd) (Some (nav_step action))) cd"
  shows "nav_listener now action w =
           (Normal, w\<lparr>currentDate := Some cd',
                      view := Some (attached (rendered now opts cd')),
                      trace := trace w @ (case onMonthChange opts of
                                            None \<Rightarrow> []
                                          | Some f \<Rightarrow> [Call f (JDate cd')])\<rparr>)"
proof -
  let ?w1 = "w\<lparr>currentDate := Some cd'\<rparr>"
  have moved: "(if action = ''prev'' then
           (case currentDate w of
              None \<Rightarrow> (Throw TypeError, w)
            | Some cd \<Rightarrow>
                (Normal, w\<lparr>currentDate := Some (setMonth (num_add (getMonth cd) (Some (- 1))) cd)\<rparr>))
         else if action = ''next'' then
           (case currentDate w of
              None \<Rightarrow> (Throw TypeError, w)
            | Some cd \<Rightarrow>
                (Normal, w\<lparr>currentDate := Some (setMonth (num_add (getMonth cd) (Some 1)) cd)\<rparr>))
         else (Normal, w)) = (Normal, ?w1)"
    using assms(3,4,5) by (auto simp: nav_step_def)
  have r: "render now ?w1 = (Normal, ?w1\<lparr>view := Some (rendered now opts cd')\<rparr>)"
    by (rule render_ready) (simp_all add: assms)
  have a: "attachEvents (?w1\<lparr>view := Some (rendered now opts cd')\<rparr>)
             = (Normal, ?w1\<lparr>view := Some (attached (rendered now opts cd'))\<rparr>)"
    using attachEvents_ready [of "?w1\<lparr>view := Some (rendered now opts cd')\<rparr>" el]
    by (simp add: assms)
  show ?thesis
    unfolding nav_listener_def Let_def moved
    by (simp add: and_then_def r a assms(2) split: option.splits)
qed

lemma click_nav_ready:
  assumes "ready w" "view w = Some g" "b \<in> set (nav g)"
  shows "click_nav now b w = snd (nav_listener now (data_action b) w)
         \<and> (data_action b = ''prev'' \<or> data_action b = ''next'')"
proof -
  have "wired_btn b"
    using assms by (auto simp: ready_def list_all_iff)
  then show ?thesis
    by (simp add: click_nav_def wired_btn_def)
qed

lemma day_listener_ready:
  assumes "options w = Some opts" "data_date c = Some s" "s \<noteq> []"
  shows "day_listener c w =
           (Normal, (case onDateSelect opts of
                       None \<Rightarrow> w
                     | Some f \<Rightarrow> w\<lparr>selectedDate := Some s,
                                    trace := trace w @ [Call f (JString s)]\<rparr>))"
  using assms by (simp add: day_listener_def split: option.splits)

lemma ready_fields:
  assumes "ready w"
  obtains el opts cd g where "container w = Some el" "options w = Some opts"
    "currentDate w = Some cd" "view w = Some g"
    "list_all wired_btn (nav g)" "list_all wired_cell (cells g)"
  using assms by (auto simp: ready_def split: option.splits)

subsection \<open>Claim C5: a click on a day cell\<close>

text \<open>
  Claim C5, as the code has it. On an initialised instance, for every cell of the grid:
  when the cell is a non-filler day cell it has a \<^verbatim>\<open>data-date\<close> identifier, and a click on it
  sets \<^verbatim>\<open>selectedDate\<close> to that identifier and calls \<^verbatim>\<open>onDateSelect\<close> exactly once with it, if
  an \<^verbatim>\<open>onDateSelect\<close> callback is configured; without a callback the click changes nothing,
  \<^verbatim>\<open>selectedDate\<close> included. A click on a filler cell calls nothing and changes nothing.
\<close>

theorem click_day_cell_selects_when_callback:
  assumes "ready w" "view w = Some g" "c \<in> set (cells g)" "options w = Some opts"
  shows "(day_selector c \<longrightarrow>
            (\<exists>s. data_date c = Some s
               \<and> click_cell c w =
                   (case onDateSelect opts of
                      None \<Rightarrow> w
                    | Some f \<Rightarrow> w\<lparr>selectedDate := Some s,
                                   trace := trace w @ [Call f (JString s)]\<rparr>)))
         \<and> (\<not> day_selector c \<longrightarrow> click_cell c w = w)"
proof -
  have wc: "wired_cell c"
    using assms(1,2,3) by (auto simp: ready_def list_all_iff)
  show ?thesis
  proof (cases "day_selector c")
    case True
    then obtain s where s: "data_date c = Some s" "s \<noteq> []" and one: "click_listeners c = 1"
      using wc by (auto simp: wired_cell_def)
    have "click_cell c w = snd (day_listener c w)"
      by (simp add: click_cell_def one)
    then show ?thesis
      using True s by (simp add: day_listener_ready [OF assms(4) s])
  next
    case False
    then have "click_listeners c = 0"
      using wc by (simp add: wired_cell_def)
    then show ?thesis
      using False by (simp add: click_cell_no_listener)
  qed
qed

text \<open>
  The cell of 15 January 2024 in the grid of an instance constructed at noon of 31
  January 2024, with an \<^verbatim>\<open>onDateSelect\<close> callback and without.
\<close>

lemma dateStr_2024_01_15: "dateStr_of (Some 2024) (Some 0) 15 = ''2024-01-15''"
  by code_simp

lemma days_2024_01:
  "day_numbers (Some 1706702400000) = [1..31]"
proof -
  have "days_in_month_of (Some 1706702400000) = Some (gregorian_days_in_month (MakeFullYear 2024) 0)"
    by (rule days_in_month_js) (simp_all add: date_2024_01_31 MakeFullYear_def)
  then show ?thesis
    by (simp add: day_numbers_def MakeFullYear_def gregorian_days_in_month_def)
qed

lemma cell_2024_01_15_in_grid:
  assumes "highlightToday opts" "entryDates opts = []"
  shows "cell_2024_01_15
           \<in> set (cells (attached (rendered 1706702400000 opts (Some 1706702400000))))"
proof -
  have "(day_cell opts (Some 2024) (Some 0) (Some 1706702400000) 15)\<lparr>click_listeners := 1\<rparr>
          = cell_2024_01_15"
    using assms
    by (simp add: day_cell_def Let_def dateStr_2024_01_15 cell_2024_01_15_def strict_eq_def
        date_2024_01_31)
  moreover have "(15::int) \<in> set [1..31]" by simp
  ultimately show ?thesis
    unfolding cells_attached_rendered days_2024_01
    by (simp add: date_2024_01_31 del: set_upto) (metis (no_types, lifting) image_eqI)
qed

lemma ready_on_page: "ready (on_page now a)"
  using wired_attached_rendered [of now "defaults a" "Some now"]
  by (simp add: on_page_eq ready_def)

theorem click_day_cell_selects_when_callback_witness:
  "ready (on_page 1706702400000 with_select_callback)
   \<and> day_selector cell_2024_01_15
   \<and> click_cell cell_2024_01_15 (on_page 1706702400000 with_select_callback)
       = (on_page 1706702400000 with_select_callback)
           \<lparr>selectedDate := Some ''2024-01-15'',
            trace := [Call 3 (JString ''2024-01-15'')]\<rparr>
   \<and> click_cell filler_cell (on_page 1706702400000 with_select_callback)
       = on_page 1706702400000 with_select_callback"
proof -
  let ?w = "on_page 1706702400000 with_select_callback"
  let ?g = "attached (rendered 1706702400000 (defaults with_select_callback) (Some 1706702400000))"
  have r: "ready ?w" by (rule ready_on_page)
  have v: "view ?w = Some ?g" and o: "options ?w = Some (defaults with_select_callback)"
    by (simp_all add: on_page_eq)
  have c: "cell_2024_01_15 \<in> set (cells ?g)"
    by (rule cell_2024_01_15_in_grid)
       (simp_all add: defaults_def with_select_callback_def no_options_def)
  have d: "day_selector cell_2024_01_15"
    by (simp add: day_selector_def cell_2024_01_15_def)
  have f: "click_cell filler_cell ?w = ?w"
    by (rule click_cell_no_listener) (simp add: filler_cell_def)
  show ?thesis
    using click_day_cell_selects_when_callback [OF r v c o] r d f
    by (simp add: cell_2024_01_15_def defaults_def with_select_callback_def no_options_def
        on_page_eq)
qed

text \<open>
  Counter-example to the claim as stated: without an \<^verbatim>\<open>onDateSelect\<close> callback a click on the
  cell of 15 January 2024 leaves \<^verbatim>\<open>selectedDate\<close> unset.
\<close>

theorem click_day_cell_selects_when_callback_counterexample:
  "(\<exists>g. view (on_page 1706702400000 no_options) = Some g \<and> cell_2024_01_15 \<in> set (cells g))
   \<and> day_selector cell_2024_01_15
   \<and> data_date cell_2024_01_15 = Some ''2024-01-15''
   \<and> selectedDate (click_cell cell_2024_01_15 (on_page 1706702400000 no_options)) = None
   \<and> selectedDate (click_cell cell_2024_01_15 (on_page 1706702400000 no_options))
       \<noteq> Some ''2024-01-15''"
proof -
  let ?w = "on_page 1706702400000 no_options"
  let ?g = "attached (rendered 1706702400000 (defaults no_options) (Some 1706702400000))"
  have v: "view ?w = Some ?g" and o: "options ?w = Some (defaults no_options)"
    by (simp_all add: on_page_eq)
  have c: "cell_2024_01_15 \<in> set (cells ?g)"
    by (rule cell_2024_01_15_in_grid) (simp_all add: defaults_def no_options_def)
  have "click_cell cell_2024_01_15 ?w = snd (day_listener cell_2024_01_15 ?w)"
    by (simp add: click_cell_def cell_2024_01_15_def)
  also have "\<dots> = ?w"
    by (simp add: day_listener_def cell_2024_01_15_def on_page_eq defaults_def no_options_def)
  finally have "selectedDate (click_cell cell_2024_01_15 ?w) = None"
    by (simp add: on_page_eq)
  with v c show ?thesis
    by (auto simp: day_selector_def cell_2024_01_15_def)
qed

subsection \<open>Claim C6: what \<^verbatim>\<open>onMonthChange\<close> receives\<close>

lemma getCurrentMonth_shape:
  "getCurrentMonth w = Inr v \<Longrightarrow> year_month_object v"
  by (auto simp: getCurrentMonth_def year_month_object_def split: option.splits)

text \<open>
  Claim C6, as the code has it. After a click on a navigation button of an initialised
  instance, \<^verbatim>\<open>onMonthChange\<close>, when configured, has been called with the new month on
  display as a \<^verbatim>\<open>Date\<close>, the value of \<^verbatim>\<open>currentDate\<close>: the grid in the container is that of
  its month, and its \<^verbatim>\<open>getFullYear()\<close> and zero-based \<^verbatim>\<open>getMonth()\<close> are the year and month
  \<^verbatim>\<open>getCurrentMonth()\<close> returns. The argument is not an object of the shape
  \<^verbatim>\<open>{year, month}\<close>. The call is the only one the click adds to the trace, and without the
  callback the click adds none.
\<close>

theorem nav_click_passes_current_date:
  assumes "ready w" "view w = Some g" "b \<in> set (nav g)" "options w = Some opts"
  shows "\<exists>cd'. currentDate (click_nav now b w) = Some cd'
           \<and> view (click_nav now b w) = Some (attached (rendered now opts cd'))
           \<and> getCurrentMonth (click_nav now b w)
               = Inr (JObject [(''year'', JNumber (getFullYear cd')),
                               (''month'', JNumber (getMonth cd'))])
           \<and> trace (click_nav now b w)
               = trace w @ (case onMonthChange opts of
                              None \<Rightarrow> []
                            | Some f \<Rightarrow> [Call f (JDate cd')])
           \<and> \<not> year_month_object (JDate cd')
           \<and> ready (click_nav now b w)"
proof -
  obtain el cd where f: "container w = Some el" "currentDate w = Some cd"
    using assms(1) by (auto elim: ready_fields)
  have b: "click_nav now b w = snd (nav_listener now (data_action b) w)"
    "data_action b = ''prev'' \<or> data_action b = ''next''"
    using click_nav_ready [OF assms(1,2,3)] by simp_all
  define cd' where "cd' = setMonth (num_add (getMonth cd) (Some (nav_step (data_action b)))) cd"
  let ?w' = "w\<lparr>currentDate := Some cd',
               view := Some (attached (rendered now opts cd')),
               trace := trace w @ (case onMonthChange opts of
                                     None \<Rightarrow> []
                                   | Some f \<Rightarrow> [Call f (JDate cd')])\<rparr>"
  have w': "click_nav now b w = ?w'"
    using nav_listener_ready [OF f(1) assms(4) f(2) b(2) cd'_def, of now] b(1) by simp
  have "ready ?w'"
    using wired_attached_rendered [of now opts cd'] f assms(4) by (simp add: ready_def)
  then show ?thesis
    unfolding w'
    by (intro exI [of _ cd']) (simp add: getCurrentMonth_def year_month_object_def)
qed

text \<open>
  Witness and counter-example: an instance with an \<^verbatim>\<open>onMonthChange\<close> callback, constructed
  at noon of 15 January 2024; a click on the next button. The one call recorded has the
  \<^verbatim>\<open>Date\<close> of noon of 15 February 2024 as its argument, not the object
  \<^verbatim>\<open>{year: 2024, month: 1}\<close>.
\<close>

lemma buttons_on_page:
  "\<exists>g. view (on_page now a) = Some g \<and> next_button \<in> set (nav g) \<and> prev_button \<in> set (nav g)"
  by (simp add: on_page_eq nav_attached_rendered next_button_def prev_button_def)

lemma date_2024_01_15:
  "YearFromTime 1705320000000 = 2024 \<and> MonthFromTime 1705320000000 = 0
   \<and> DateFromTime 1705320000000 = 15"
  by (rule civil_roundtrip)
     (simp_all add: Day_def msPerDay_def DayFromYear_def DayFromMonth_def DaysInYear_def
       gregorian_days_in_month_def is_leap_year_def)

lemma setMonth_2024_01_15_next:
  "setMonth (num_add (getMonth (Some 1705320000000)) (Some 1)) (Some 1705320000000)
     = Some 1707998400000"
  by (simp add: setMonth_def num_add_def date_2024_01_15 LocalTime_def UTC_def LocalTZA_def
      Let_def MakeDay_def MakeDate_def TimeWithinDay_def msPerDay_def DayFromYear_def
      DayFromMonth_def DaysInYear_def TimeClip_def)

lemma click_next_2024_01_15:
  "click_nav 1705320000000 next_button (on_page 1705320000000 a)
     = (on_page 1705320000000 a)
         \<lparr>currentDate := Some (Some 1707998400000),
          view := Some (attached (rendered 1705320000000 (defaults a) (Some 1707998400000))),
          trace := (case onMonthChange (defaults a) of
                      None \<Rightarrow> []
                    | Some f \<Rightarrow> [Call f (JDate (Some 1707998400000))])\<rparr>"
proof -
  let ?w = "on_page 1705320000000 a"
  have "click_nav 1705320000000 next_button ?w
          = snd (nav_listener 1705320000000 ''next'' ?w)"
    by (simp add: click_nav_def next_button_def)
  also have "nav_listener 1705320000000 ''next'' ?w
      = (Normal, ?w\<lparr>currentDate := Some (Some 1707998400000),
           view := Some (attached (rendered 1705320000000 (defaults a) (Some 1707998400000))),
           trace := trace ?w @ (case onMonthChange (defaults a) of
                      None \<Rightarrow> []
                    | Some f \<Rightarrow> [Call f (JDate (Some 1707998400000))])\<rparr>)"
    by (rule nav_listener_ready [where el = 0 and cd = "Some 1705320000000"])
       (simp_all add: on_page_eq nav_step_def setMonth_2024_01_15_next [symmetric])
  finally show ?thesis by (simp add: on_page_eq)
qed

theorem nav_click_passes_current_date_witness:
  "ready (on_page 1705320000000 with_month_callback)
   \<and> trace (click_nav 1705320000000 next_button (on_page 1705320000000 with_month_callback))
       = [Call 7 (JDate (Some 1707998400000))]
   \<and> getCurrentMonth (click_nav 1705320000000 next_button (on_page 1705320000000 with_month_callback))
       = Inr (JObject [(''year'', JNumber (Some 2024)), (''month'', JNumber (Some 1))])
   \<and> trace (click_nav 1705320000000 next_button (on_page 1705320000000 no_options)) = []"
proof -
  let ?w = "on_page 1705320000000 with_month_callback"
  have r: "ready ?w" by (rule ready_on_page)
  obtain g where g: "view ?w = Some g" "next_button \<in> set (nav g)"
    using buttons_on_page by blast
  have o: "options ?w = Some (defaults with_month_callback)"
    by (simp add: on_page_eq)
  have n: "trace (click_nav 1705320000000 next_button (on_page 1705320000000 no_options)) = []"
    by (simp add: click_next_2024_01_15 defaults_def no_options_def)
  show ?thesis
    using nav_click_passes_current_date [OF r g o, of 1705320000000] r n
    by (simp add: click_next_2024_01_15 defaults_def with_month_callback_def no_options_def
        date_2024_02_15)
qed

theorem nav_click_passes_current_date_counterexample:
  "trace (click_nav 1705320000000 next_button (on_page 1705320000000 with_month_callback))
     = [Call 7 (JDate (Some 1707998400000))]
   \<and> \<not> year_month_object (JDate (Some 1707998400000))
   \<and> JDate (Some 1707998400000)
       \<noteq> JObject [(''year'', JNumber (Some 2024)), (''month'', JNumber (Some 1))]"
  by (simp add: click_next_2024_01_15 defaults_def with_month_callback_def no_options_def
      year_month_object_def)

subsection \<open>Claim C1: navigation from a day the next month does not have\<close>

text \<open>
  Claim C1 says that a click on next moves the month on display by exactly one month
  whatever day of the month \<^verbatim>\<open>currentDate\<close> carries. The constructor sets \<^verbatim>\<open>currentDate\<close> to
  the present moment, and \<^verbatim>\<open>setMonth\<close> keeps the day of the month: from 31 January 2024 it
  builds 31 February, which is 2 March. The theorem runs the code there: the instance
  constructed at noon of 31 January 2024 shows January, and after one click on next it
  shows March 2024 (month 2), not February; from 31 March 2024 a click on previous leaves
  March on display.
\<close>

lemma date_2024_03_02:
  "YearFromTime 1709380800000 = 2024 \<and> MonthFromTime 1709380800000 = 2
   \<and> DateFromTime 1709380800000 = 2"
  by (rule civil_roundtrip)
     (simp_all add: Day_def msPerDay_def DayFromYear_def DayFromMonth_def DaysInYear_def
       gregorian_days_in_month_def is_leap_year_def)

lemma date_2024_03_31:
  "YearFromTime 1711886400000 = 2024 \<and> MonthFromTime 1711886400000 = 2
   \<and> DateFromTime 1711886400000 = 31"
  by (rule civil_roundtrip)
     (simp_all add: Day_def msPerDay_def DayFromYear_def DayFromMonth_def DaysInYear_def
       gregorian_days_in_month_def is_leap_year_def)

lemma setMonth_2024_01_31_next:
  "setMonth (num_add (getMonth (Some 1706702400000)) (Some 1)) (Some 1706702400000)
     = Some 1709380800000"
  by (simp add: setMonth_def num_add_def date_2024_01_31 LocalTime_def UTC_def LocalTZA_def
      Let_def MakeDay_def MakeDate_def TimeWithinDay_def msPerDay_def DayFromYear_def
      DayFromMonth_def DaysInYear_def TimeClip_def)

lemma setMonth_2024_03_31_prev:
  "setMonth (num_add (getMonth (Some 1711886400000)) (Some (- 1))) (Some 1711886400000)
     = Some 1709380800000"
  by (simp add: setMonth_def num_add_def date_2024_03_31 LocalTime_def UTC_def LocalTZA_def
      Let_def MakeDay_def MakeDate_def TimeWithinDay_def msPerDay_def DayFromYear_def
      DayFromMonth_def DaysInYear_def TimeClip_def)

theorem nav_next_from_31_january_shows_march:
  "getCurrentMonth (on_page 1706702400000 no_options)
     = Inr (JObject [(''year'', JNumber (Some 2024)), (''month'', JNumber (Some 0))])
   \<and> getCurrentMonth (click_nav 1706702400000 next_button (on_page 1706702400000 no_options))
       = Inr (JObject [(''year'', JNumber (Some 2024)), (''month'', JNumber (Some 2))])
   \<and> getCurrentMonth (on_page 1711886400000 no_options)
       = Inr (JObject [(''year'', JNumber (Some 2024)), (''month'', JNumber (Some 2))])
   \<and> getCurrentMonth (click_nav 1711886400000 prev_button (on_page 1711886400000 no_options))
       = Inr (JObject [(''year'', JNumber (Some 2024)), (''month'', JNumber (Some 2))])"
proof -
  let ?a = "on_page 1706702400000 no_options"
  let ?b = "on_page 1711886400000 no_options"
  have "click_nav 1706702400000 next_button ?a = snd (nav_listener 1706702400000 ''next'' ?a)"
    by (simp add: click_nav_def next_button_def)
  also have "nav_listener 1706702400000 ''next'' ?a
      = (Normal, ?a\<lparr>currentDate := Some (Some 1709380800000),
           view := Some (attached (rendered 1706702400000 (defaults no_options) (Some 1709380800000))),
           trace := trace ?a @ (case onMonthChange (defaults no_options) of
                      None \<Rightarrow> []
                    | Some f \<Rightarrow> [Call f (JDate (Some 1709380800000))])\<rparr>)"
    by (rule nav_listener_ready [where el = 0 and cd = "Some 1706702400000"])
       (simp_all add: on_page_eq nav_step_def setMonth_2024_01_31_next [symmetric])
  finally have a: "currentDate (click_nav 1706702400000 next_button ?a) = Some (Some 1709380800000)"
    by simp
  have "click_nav 1711886400000 prev_button ?b = snd (nav_listener 1711886400000 ''prev'' ?b)"
    by (simp add: click_nav_def prev_button_def)
  also have "nav_listener 1711886400000 ''prev'' ?b
      = (Normal, ?b\<lparr>currentDate := Some (Some 1709380800000),
           view := Some (attached (rendered 1711886400000 (defaults no_options) (Some 1709380800000))),
           trace := trace ?b @ (case onMonthChange (defaults no_options) of
                      None \<Rightarrow> []
                    | Some f \<Rightarrow> [Call f (JDate (Some 1709380800000))])\<rparr>)"
    by (rule nav_listener_ready [where el = 0 and cd = "Some 1711886400000"])
       (simp_all add: on_page_eq nav_step_def setMonth_2024_03_31_prev [symmetric])
  finally have b: "currentDate (click_nav 1711886400000 prev_button ?b) = Some (Some 1709380800000)"
    by simp
  have "getCurrentMonth ?a
          = Inr (JObject [(''year'', JNumber (Some 2024)), (''month'', JNumber (Some 0))])"
    by (simp add: getCurrentMonth_def on_page_eq date_2024_01_31)
  moreover have "getCurrentMonth ?b
          = Inr (JObject [(''year'', JNumber (Some 2024)), (''month'', JNumber (Some 2))])"
    by (simp add: getCurrentMonth_def on_page_eq date_2024_03_31)
  moreover have "getCurrentMonth (click_nav 1706702400000 next_button ?a)
          = Inr (JObject [(''year'', JNumber (Some 2024)), (''month'', JNumber (Some 2))])"
    by (simp add: getCurrentMonth_def a date_2024_03_02)
  moreover have "getCurrentMonth (click_nav 1711886400000 prev_button ?b)
          = Inr (JObject [(''year'', JNumber (Some 2024)), (''month'', JNumber (Some 2))])"
    by (simp add: getCurrentMonth_def b date_2024_03_02)
  ultimately show ?thesis by simp
qed

subsection \<open>Claim C2: an instance whose container was not found\<close>

text \<open>
  When the container resolves to nothing the constructor writes one message to the
  console and returns without throwing, and without setting any field.
\<close>

lemma JournalCalendar_not_found:
  assumes "resolve q c = Inr None"
  shows "JournalCalendar q now c a
           = (Normal, blank\<lparr>trace := [ConsoleError ''Calendar container not found'']\<rparr>)"
  using assms by (simp add: JournalCalendar_def)

lemma methods_throw_without_fields:
  assumes "container w = None" "options w = None"
  shows "fst (setEntryDates now dates w) = Throw TypeError"
    and "fst (goToMonth now y m w) = Throw TypeError"
    and "currentDate w = None \<Longrightarrow> getCurrentMonth w = Inl TypeError"
  using assms
  by (simp_all add: setEntryDates_def goToMonth_def render_def set_innerHTML_def and_then_def
      getCurrentMonth_def Let_def)

text \<open>
  Claim C2 says that every later call of \<^verbatim>\<open>setEntryDates\<close>, \<^verbatim>\<open>goToMonth\<close> and
  \<^verbatim>\<open>getCurrentMonth\<close> on such an instance is a no-op that does not throw. The theorem runs
  the code on the instance the constructor returns for a selector that matches nothing:
  the constructor logs and completes, and then each of the three methods throws a
  \<^verbatim>\<open>TypeError\<close>, whatever its arguments, because it reads a property of \<^verbatim>\<open>this.options\<close>, of
  \<^verbatim>\<open>this.container\<close> or of \<^verbatim>\<open>this.currentDate\<close>, none of which was set.
\<close>

theorem inert_instance_methods_throw:
  "JournalCalendar page 1706702400000 (Selector ''#missing'') no_options
     = (Normal, blank\<lparr>trace := [ConsoleError ''Calendar container not found'']\<rparr>)
   \<and> (\<forall>now dates. fst (setEntryDates now dates inert) = Throw TypeError)
   \<and> (\<forall>now year month. fst (goToMonth now year month inert) = Throw TypeError)
   \<and> getCurrentMonth inert = Inl TypeError"
proof -
  have r: "resolve page (Selector ''#missing'') = Inr None"
    by (simp add: resolve_def page_def)
  have i: "inert = blank\<lparr>trace := [ConsoleError ''Calendar container not found'']\<rparr>"
    by (simp add: inert_def JournalCalendar_not_found [OF r])
  have f: "container inert = None" "options inert = None" "currentDate inert = None"
    by (simp_all add: i blank_def)
  show ?thesis
    using JournalCalendar_not_found [OF r] methods_throw_without_fields [OF f(1,2)] f(3)
    by simp
qed

subsection \<open>The format of a date identifier\<close>

lemma is_digit_digit_char: "k < 10 \<Longrightarrow> is_digit (digit_char k)"
  unfolding is_digit_def digit_char_def by (rule nth_mem) simp

lemma digit_char_not_minus: "k < 10 \<Longrightarrow> digit_char k \<noteq> CHR ''-''"
  using is_digit_digit_char [of k] by (auto simp: is_digit_def)

lemma digit_char_0: "digit_char 0 = CHR ''0''"
  by (simp add: digit_char_def)

lemma digits_lt10: "n < 10 \<Longrightarrow> digits n = [digit_char n]"
  by (subst digits.simps) simp

lemma digits_ge10: "10 \<le> n \<Longrightarrow> digits n = digits (n div 10) @ [digit_char (n mod 10)]"
  by (subst digits.simps) simp

lemma digits_lt100:
  assumes "10 \<le> n" "n < 100"
  shows "digits n = [digit_char (n div 10), digit_char (n mod 10)]"
proof -
  have "n div 10 < 10" using assms by simp
  then show ?thesis using assms by (simp add: digits_ge10 digits_lt10)
qed

lemma digits_4:
  assumes "1000 \<le> n" "n < 10000"
  shows "digits n = [digit_char (n div 1000), digit_char (n div 100 mod 10),
                     digit_char (n div 10 mod 10), digit_char (n mod 10)]"
proof -
  have a: "10 \<le> n" "10 \<le> n div 10" "10 \<le> n div 100" "n div 1000 < 10"
    using assms by simp_all
  have b: "n div 10 div 10 = n div 100" "n div 100 div 10 = n div 1000"
    by (simp_all add: div_mult2_eq [symmetric])
  have "digits n = digits (n div 10) @ [digit_char (n mod 10)]"
    by (rule digits_ge10 [OF a(1)])
  also have "digits (n div 10) = digits (n div 100) @ [digit_char (n div 10 mod 10)]"
    using digits_ge10 [OF a(2)] by (simp add: b)
  also have "digits (n div 100) = digits (n div 1000) @ [digit_char (n div 100 mod 10)]"
    using digits_ge10 [OF a(3)] by (simp add: b)
  also have "digits (n div 1000) = [digit_char (n div 1000)]"
    by (rule digits_lt10 [OF a(4)])
  finally show ?thesis by simp
qed



lemma pad_two_digits:
  assumes "0 \<le> n" "n < 100"
  shows "padStart 2 (CHR ''0'') (js_String (Some n)) = two_digits n"
proof (cases "n < 10")
  case True
  then have "nat n < 10" "nat n div 10 = 0" "nat n mod 10 = nat n" using assms by simp_all
  then show ?thesis
    using assms by (simp add: padStart_def js_String_def digits_lt10 two_digits_def digit_char_0)
next
  case False
  then have "10 \<le> nat n" "nat n < 100" using assms by simp_all
  then show ?thesis
    using assms by (simp add: padStart_def js_String_def digits_lt100 two_digits_def)
qed

lemma two_digits_all_digit:
  assumes "0 \<le> n" "n < 100"
  shows "list_all is_digit (two_digits n)"
proof -
  have "nat n div 10 < 10" using assms by simp
  then show ?thesis by (simp add: two_digits_def is_digit_digit_char)
qed

lemma four_digits_year:
  assumes "1000 \<le> y" "y \<le> 9999"
  shows "js_String (Some y) = four_digits y" and "list_all is_digit (four_digits y)"
proof -
  have n: "1000 \<le> nat y" "nat y < 10000" using assms by simp_all
  show "js_String (Some y) = four_digits y"
    using assms by (simp add: js_String_def digits_4 [OF n] four_digits_def)
  have "nat y div 1000 < 10" using n by simp
  then show "list_all is_digit (four_digits y)"
    by (simp add: four_digits_def is_digit_digit_char)
qed

text \<open>The identifier \<^verbatim>\<open>render\<close> builds, for a month from 0 to 11 and a day from 1 to 31.\<close>

lemma dateStr_of_two_digits:
  assumes "0 \<le> m" "m < 12" "1 \<le> d" "d \<le> 31"
  shows "dateStr_of (Some y) (Some m) d
           = js_String (Some y) @ ''-'' @ two_digits (m + 1) @ ''-'' @ two_digits d"
  using assms by (simp add: dateStr_of_def num_add_def pad_two_digits)

lemma dateStr_of_canonical:
  assumes "1000 \<le> y" "y \<le> 9999" "0 \<le> m" "m < 12" "1 \<le> d" "d \<le> 31"
  shows "dateStr_of (Some y) (Some m) d = canonical_date_id y (m + 1) d"
    and "canonical_ymd (dateStr_of (Some y) (Some m) d)"
proof -
  show e: "dateStr_of (Some y) (Some m) d = canonical_date_id y (m + 1) d"
    using assms
    by (simp add: dateStr_of_two_digits four_digits_year(1) canonical_date_id_def)
  have "list_all is_digit (four_digits y)" "list_all is_digit (two_digits (m + 1))"
    "list_all is_digit (two_digits d)"
    using assms by (simp_all add: four_digits_year(2) two_digits_all_digit)
  then show "canonical_ymd (dateStr_of (Some y) (Some m) d)"
    unfolding e
    by (simp add: canonical_ymd_def canonical_date_id_def four_digits_def two_digits_def)
qed



subsection \<open>Claim C10: the identifiers of the day cells\<close>

text \<open>
  Claim C10. For a year on display from 1000 to 9999, every non-filler cell that \<^verbatim>\<open>render\<close>
  writes is the cell of a day \<open>d\<close> of the month, and its \<^verbatim>\<open>data-date\<close> is the canonical
  identifier of that day: the four digits of the year, the two digits of the month plus
  one and the two digits of \<open>d\<close>, zero-padded, with hyphens; it has the shape
  \<^verbatim>\<open>YYYY-MM-DD\<close>. After \<^verbatim>\<open>attachEvents\<close> the cells carry the same identifiers, which are what
  a click hands to \<^verbatim>\<open>onDateSelect\<close> and what is looked up among the entry dates.
\<close>

theorem day_cell_identifiers_canonical:
  assumes "container w = Some el" "options w = Some opts" "currentDate w = Some cd"
    and "getFullYear cd = Some y" "getMonth cd = Some m"
    and "1000 \<le> y" "y \<le> 9999"
  shows "\<exists>g. render now w = (Normal, w\<lparr>view := Some g\<rparr>)
           \<and> (\<forall>c \<in> set (cells g). day_selector c \<longrightarrow>
                 (\<exists>d. 1 \<le> d \<and> d \<le> gregorian_days_in_month y m \<and> day_text c = Some d
                     \<and> data_date c = Some (canonical_date_id y (m + 1) d)
                     \<and> canonical_ymd (canonical_date_id y (m + 1) d)))
           \<and> map data_date (cells (attached g)) = map data_date (cells g)"
proof -
  note mr = getMonth_range [OF assms(5)]
  have yr: "MakeFullYear y = y" "- 271820 \<le> MakeFullYear y" "MakeFullYear y \<le> 275759"
    using assms(6,7) by (simp_all add: MakeFullYear_def)
  have dn: "day_numbers cd = [1..gregorian_days_in_month y m]"
    using days_in_month_js [OF assms(4,5) yr(2,3)] by (simp add: day_numbers_def yr(1))
  have cell: "\<exists>d. 1 \<le> d \<and> d \<le> gregorian_days_in_month y m \<and> day_text c = Some d
                 \<and> data_date c = Some (canonical_date_id y (m + 1) d)
                 \<and> canonical_ymd (canonical_date_id y (m + 1) d)"
    if "c \<in> set (cells (rendered now opts cd))" "day_selector c" for c
  proof -
    from that obtain d where d: "d \<in> set (day_numbers cd)"
        "c = day_cell opts (Some y) (Some m) (Some now) d"
      by (auto simp: rendered_def assms(4,5))
    then have r: "1 \<le> d" "d \<le> gregorian_days_in_month y m"
      by (simp_all add: dn)
    then have d31: "d \<le> 31"
      using gregorian_days_in_month_range [of y m] by simp
    show ?thesis
      using d(2) r dateStr_of_canonical [OF assms(6,7) mr r(1) d31]
      by (intro exI [of _ d]) simp
  qed
  have "map data_date (cells (attached (rendered now opts cd)))
          = map data_date (cells (rendered now opts cd))"
    by (simp add: attached_def comp_def)
  with cell show ?thesis
    using render_ready [OF assms(1,2,3), of now] by blast
qed

text \<open>
  Witness: the instance constructed at noon of 31 January 2024 has the cell of day 15
  with the identifier \<^verbatim>\<open>2024-01-15\<close>.
\<close>

lemma canonical_2024_01_15: "canonical_date_id 2024 1 15 = ''2024-01-15''"
  by (simp add: canonical_date_id_def four_digits_def two_digits_def digit_char_def)

theorem day_cell_identifiers_canonical_witness:
  "\<exists>g c. render 1706702400000 (on_page 1706702400000 no_options)
          = (Normal, (on_page 1706702400000 no_options)\<lparr>view := Some g\<rparr>)
      \<and> c \<in> set (cells g) \<and> day_selector c \<and> day_text c = Some 15
      \<and> data_date c = Some ''2024-01-15''
      \<and> canonical_ymd ''2024-01-15''"
proof -
  let ?w = "on_page 1706702400000 no_options"
  let ?c = "day_cell (defaults no_options) (Some 2024) (Some 0) (Some 1706702400000) 15"
  obtain g where g: "render 1706702400000 ?w = (Normal, ?w\<lparr>view := Some g\<rparr>)"
    and c: "\<forall>c \<in> set (cells g). day_selector c \<longrightarrow>
                 (\<exists>d. 1 \<le> d \<and> d \<le> gregorian_days_in_month 2024 0 \<and> day_text c = Some d
                     \<and> data_date c = Some (canonical_date_id 2024 (0 + 1) d)
                     \<and> canonical_ymd (canonical_date_id 2024 (0 + 1) d))"
    using day_cell_identifiers_canonical [of ?w 0 "defaults no_options" "Some 1706702400000"
        2024 0 1706702400000]
    by (auto simp: on_page_eq date_2024_01_31)
  have g': "g = rendered 1706702400000 (defaults no_options) (Some 1706702400000)"
    using g render_ready [of ?w 0 "defaults no_options" "Some 1706702400000" 1706702400000]
    by (simp add: on_page_eq)
  have "(15::int) \<in> set [1..31]" by simp
  then have m: "?c \<in> set (cells g)"
    unfolding g' rendered_def days_2024_01
    by (simp add: date_2024_01_31 del: set_upto)
  have s: "day_selector ?c" "day_text ?c = Some 15" by simp_all
  from c m s(1) obtain d where d: "day_text ?c = Some d"
      "data_date ?c = Some (canonical_date_id 2024 (0 + 1) d)"
      "canonical_ymd (canonical_date_id 2024 (0 + 1) d)"
    by blast
  then have "d = 15" by simp
  then have "data_date ?c = Some ''2024-01-15''" "canonical_ymd ''2024-01-15''"
    using d by (simp_all add: canonical_2024_01_15)
  with g m s show ?thesis by blast
qed

subsection \<open>Claim C8: \<^verbatim>\<open>setEntryDates\<close>\<close>

lemma setEntryDates_ready:
  assumes "container w = Some el" "options w = Some opts" "currentDate w = Some cd"
  shows "setEntryDates now dates w =
           (Normal, w\<lparr>options := Some (opts\<lparr>entryDates := dates\<rparr>),
                      view := Some (attached (rendered now (opts\<lparr>entryDates := dates\<rparr>) cd))\<rparr>)"
proof -
  let ?w = "w\<lparr>options := Some (opts\<lparr>entryDates := dates\<rparr>)\<rparr>"
  have "setEntryDates now dates w = init now ?w"
    using assms(2) by (simp add: setEntryDates_def init_def)
  also have "\<dots> = (Normal, ?w\<lparr>view := Some (attached (rendered now (opts\<lparr>entryDates := dates\<rparr>) cd))\<rparr>)"
    by (rule init_ready) (simp_all add: assms)
  finally show ?thesis by simp
qed

lemma marked_filler [simp]: "\<not> marked filler_cell"
  by (simp add: marked_def filler_cell_def)

lemma data_date_filler [simp]: "data_date filler_cell = None"
  by (simp add: filler_cell_def)

lemma marked_day_cell [simp]:
  "marked ((day_cell opts y m today d)\<lparr>click_listeners := k\<rparr>)
     = (dateStr_of y m d \<in> set (entryDates opts))"
  by (simp add: marked_def day_cell_def Let_def)










subsection \<open>Claim C9: the grid is a function of four inputs\<close>

text \<open>
  Claim C9. Two runs of \<^verbatim>\<open>render\<close>, on instances that show the same year and month, hold
  the same set of entry dates and the same \<^verbatim>\<open>highlightToday\<close>, at moments of the same
  calendar day, write the same grid: title, buttons, filler cells, day cells with their
  identifiers, texts and classes; and the same holds after \<^verbatim>\<open>attachEvents\<close>. The day of the
  month and the time of day of \<^verbatim>\<open>currentDate\<close>, the order and repetitions of the entry dates,
  the time of day of the clock, the callbacks and the selected date have no influence.
  When \<^verbatim>\<open>highlightToday\<close> is false no cell has the class \<^verbatim>\<open>today\<close>.
\<close>

theorem render_depends_on_four_inputs:
  assumes "container w1 = Some el1" "options w1 = Some opts1" "currentDate w1 = Some cd1"
    and "container w2 = Some el2" "options w2 = Some opts2" "currentDate w2 = Some cd2"
    and "getFullYear cd1 = getFullYear cd2" "getMonth cd1 = getMonth cd2"
    and "set (entryDates opts1) = set (entryDates opts2)"
    and "highlightToday opts1 = highlightToday opts2"
    and "getFullYear (Some now1) = getFullYear (Some now2)"
      "getMonth (Some now1) = getMonth (Some now2)"
      "getDate (Some now1) = getDate (Some now2)"
  shows "\<exists>g. render now1 w1 = (Normal, w1\<lparr>view := Some g\<rparr>)
           \<and> render now2 w2 = (Normal, w2\<lparr>view := Some g\<rparr>)
           \<and> init now1 w1 = (Normal, w1\<lparr>view := Some (attached g)\<rparr>)
           \<and> init now2 w2 = (Normal, w2\<lparr>view := Some (attached g)\<rparr>)
           \<and> (\<not> highlightToday opts1 \<longrightarrow>
                 (\<forall>c \<in> set (cells g). ''today'' \<notin> set (class_list c))
               \<and> (\<forall>c \<in> set (cells (attached g)). ''today'' \<notin> set (class_list c)))"
proof -
  have cell: "day_cell opts1 y m (Some now1) d = day_cell opts2 y m (Some now2) d" for y m d
    unfolding day_cell_def Let_def using assms(9-13) by simp
  have same: "rendered now1 opts1 cd1 = rendered now2 opts2 cd2"
    unfolding rendered_def filler_count_def day_numbers_def first_day_of_def days_in_month_of_def
    by (simp add: assms(7,8) cell)
  have plain: "''today'' \<notin> set (class_list c)"
    if "\<not> highlightToday opts1" "c \<in> set (cells (rendered now1 opts1 cd1))" for c
    using that by (auto simp: rendered_def filler_cell_def day_cell_def Let_def)
  have plain': "''today'' \<notin> set (class_list c)"
    if "\<not> highlightToday opts1" "c \<in> set (cells (attached (rendered now1 opts1 cd1)))" for c
    using that by (auto simp: cells_attached_rendered filler_cell_def day_cell_def Let_def)
  show ?thesis
    using render_ready [OF assms(1,2,3), of now1] render_ready [OF assms(4,5,6), of now2]
      init_ready [OF assms(1,2,3), of now1] init_ready [OF assms(4,5,6), of now2]
      plain plain'
    by (intro exI [of _ "rendered now1 opts1 cd1"]) (simp add: same [symmetric])
qed

text \<open>
  Witness: two instances constructed on 31 January 2024, one at noon with the entry
  dates 15 and 20 January, the other an hour later with the same dates in another order
  and one repeated, both with \<^verbatim>\<open>highlightToday\<close> false and different callbacks.
\<close>

lemma date_2024_01_31_13h:
  "YearFromTime 1706706000000 = 2024 \<and> MonthFromTime 1706706000000 = 0
   \<and> DateFromTime 1706706000000 = 31"
  by (rule civil_roundtrip)
     (simp_all add: Day_def msPerDay_def DayFromYear_def DayFromMonth_def DaysInYear_def
       gregorian_days_in_month_def is_leap_year_def)

theorem render_depends_on_four_inputs_witness:
  "\<exists>g. render 1706702400000 (on_page 1706702400000 entries_a)
          = (Normal, (on_page 1706702400000 entries_a)\<lparr>view := Some g\<rparr>)
      \<and> render 1706706000000 (on_page 1706706000000 entries_b)
          = (Normal, (on_page 1706706000000 entries_b)\<lparr>view := Some g\<rparr>)
      \<and> list_all (\<lambda>c. ''today'' \<notin> set (class_list c)) (cells g)"
proof -
  let ?a = "on_page 1706702400000 entries_a"
  let ?b = "on_page 1706706000000 entries_b"
  have "\<exists>g. render 1706702400000 ?a = (Normal, ?a\<lparr>view := Some g\<rparr>)
           \<and> render 1706706000000 ?b = (Normal, ?b\<lparr>view := Some g\<rparr>)
           \<and> init 1706702400000 ?a = (Normal, ?a\<lparr>view := Some (attached g)\<rparr>)
           \<and> init 1706706000000 ?b = (Normal, ?b\<lparr>view := Some (attached g)\<rparr>)
           \<and> (\<not> highlightToday (defaults entries_a) \<longrightarrow>
                 (\<forall>c \<in> set (cells g). ''today'' \<notin> set (class_list c))
               \<and> (\<forall>c \<in> set (cells (attached g)). ''today'' \<notin> set (class_list c)))"
    by (rule render_depends_on_four_inputs [where ?el1.0 = 0 and ?el2.0 = 0
          and ?opts2.0 = "defaults entries_b"
          and ?cd1.0 = "Some 1706702400000" and ?cd2.0 = "Some 1706706000000"])
       (auto simp: on_page_eq defaults_def entries_a_def entries_b_def date_2024_01_31
          date_2024_01_31_13h)
  then show ?thesis
    by (auto simp: defaults_def entries_a_def list_all_iff)
qed

subsection \<open>Navigation from a day that every month has\<close>

text \<open>
  \<^verbatim>\<open>setMonth\<close> keeps the day of the month and the time of day. When the day is at most 28
  the month asked for has that day, and the date lands in it.
\<close>

lemma setMonth_decodes:
  assumes d: "DateFromTime t \<le> 28"
    and y: "- 271820 \<le> YearFromTime t + mo div 12" "YearFromTime t + mo div 12 \<le> 275759"
    and b: "- 1000000 \<le> YearFromTime t" "YearFromTime t \<le> 1000000"
      "- 10000000 \<le> mo" "mo \<le> 10000000"
  shows "\<exists>t'. setMonth (Some mo) (Some t) = Some t'
           \<and> YearFromTime t' = YearFromTime t + mo div 12
           \<and> MonthFromTime t' = mo mod 12
           \<and> DateFromTime t' = DateFromTime t
           \<and> TimeWithinDay t' = TimeWithinDay t"
proof -
  let ?ym = "YearFromTime t + mo div 12"
  let ?mn = "mo mod 12"
  let ?d = "DateFromTime t"
  define n where "n = DayFromYear ?ym + DayFromMonth ?ym ?mn + ?d - 1"
  define t' where "t' = MakeDate n (TimeWithinDay t)"
  have m: "0 \<le> ?mn" "?mn < 12" by simp_all
  have dr: "1 \<le> ?d" "?d \<le> gregorian_days_in_month ?ym ?mn"
    using DateFromTime_range [of t] d gregorian_days_in_month_range [of ?ym ?mn] by simp_all
  have k: "0 \<le> DayFromMonth ?ym ?mn + ?d - 1" "DayFromMonth ?ym ?mn + ?d - 1 < DaysInYear ?ym"
    using month_day_within_year [OF m dr] by simp_all
  have rng: "- 100000000 \<le> n" "n < 100000000"
    using year_days_in_range [OF y k] by (simp_all add: n_def)
  note tod = TimeWithinDay_bounds [of t]
  have md: "MakeDay (YearFromTime t) mo ?d = Some n"
    by (simp add: MakeDay_value [OF b] n_def)
  have "setMonth (Some mo) (Some t) = TimeClip (MakeDate n (TimeWithinDay t))"
    by (simp add: setMonth_def LocalTime_def UTC_def LocalTZA_def Let_def md)
  also have "\<dots> = Some t'"
    using TimeClip_in_range [OF rng, of "TimeWithinDay t"] tod by (simp add: t'_def)
  finally have s: "setMonth (Some mo) (Some t) = Some t'" .
  have dt: "Day t' = n" and tw: "TimeWithinDay t' = TimeWithinDay t"
    unfolding t'_def using Day_MakeDate [of "TimeWithinDay t" n] tod by simp_all
  have "YearFromTime t' = ?ym \<and> MonthFromTime t' = ?mn \<and> DateFromTime t' = ?d"
    by (rule civil_roundtrip [OF m dr]) (simp add: dt n_def)
  with s tw show ?thesis by blast
qed

lemma next_month_carry:
  assumes "0 \<le> (m::int)" "m < 12"
  shows "(m + 1) div 12 = (if m = 11 then 1 else 0)" and "(m + 1) mod 12 = (if m = 11 then 0 else m + 1)"
  using assms by (cases m rule: month_cases; simp)+

lemma prev_month_carry:
  assumes "0 \<le> (m::int)" "m < 12"
  shows "(m - 1) div 12 = (if m = 0 then - 1 else 0)" and "(m - 1) mod 12 = (if m = 0 then 11 else m - 1)"
  using assms by (cases m rule: month_cases; simp)+

text \<open>
  On an initialised instance whose \<^verbatim>\<open>currentDate\<close> carries a day of the month from 1 to 28,
  in a year from -271819 to 275758, a click on next moves the month on display by
  exactly one month forward, from December of a year to January of the next, and a click
  on previous by exactly one month backward, from January of a year to December of the
  year before.
\<close>

theorem nav_moves_one_month_when_day_fits:
  assumes "ready w" "view w = Some g" "b \<in> set (nav g)"
    and "currentDate w = Some (Some t)" "DateFromTime t \<le> 28"
    and "- 271820 < YearFromTime t" "YearFromTime t < 275759"
  shows "(data_action b = ''next'' \<longrightarrow>
            getCurrentMonth (click_nav now b w)
              = Inr (JObject
                  [(''year'', JNumber (Some (if MonthFromTime t = 11 then YearFromTime t + 1
                                             else YearFromTime t))),
                   (''month'', JNumber (Some (if MonthFromTime t = 11 then 0
                                              else MonthFromTime t + 1)))]))
       \<and> (data_action b = ''prev'' \<longrightarrow>
            getCurrentMonth (click_nav now b w)
              = Inr (JObject
                  [(''year'', JNumber (Some (if MonthFromTime t = 0 then YearFromTime t - 1
                                             else YearFromTime t))),
                   (''month'', JNumber (Some (if MonthFromTime t = 0 then 11
                                              else MonthFromTime t - 1)))]))"
proof -
  obtain el opts where f: "container w = Some el" "options w = Some opts"
    using assms(1) by (auto elim: ready_fields)
  have b: "click_nav now b w = snd (nav_listener now (data_action b) w)"
    "data_action b = ''prev'' \<or> data_action b = ''next''"
    using click_nav_ready [OF assms(1,2,3)] by simp_all
  let ?k = "nav_step (data_action b)"
  let ?y = "YearFromTime t"
  let ?m = "MonthFromTime t"
  note mr = MonthFromTime_range [of t]
  have mrs: "0 \<le> ?m" "?m < 12" using mr by simp_all
  have k: "?k = - 1 \<or> ?k = 1" by (simp add: nav_step_def)
  have carry: "- 1 \<le> (?m + ?k) div 12" "(?m + ?k) div 12 \<le> 1"
    using k next_month_carry(1) [OF mrs] prev_month_carry(1) [OF mrs] by auto
  have yr: "- 271820 \<le> ?y + (?m + ?k) div 12" "?y + (?m + ?k) div 12 \<le> 275759"
    using carry assms(6,7) by simp_all
  have bd: "- 1000000 \<le> ?y" "?y \<le> 1000000" "- 10000000 \<le> ?m + ?k" "?m + ?k \<le> 10000000"
    using assms(6,7) mrs k by auto
  obtain t' where t': "setMonth (Some (?m + ?k)) (Some t) = Some t'"
      "YearFromTime t' = ?y + (?m + ?k) div 12" "MonthFromTime t' = (?m + ?k) mod 12"
    using setMonth_decodes [OF assms(5) yr bd] by blast
  have cd': "Some t' = setMonth (num_add (getMonth (Some t)) (Some ?k)) (Some t)"
    by (simp add: num_add_def t'(1))
  have "currentDate (click_nav now b w) = Some (Some t')"
    using nav_listener_ready [OF f assms(4) b(2) cd', of now] b(1) by simp
  then have cm: "getCurrentMonth (click_nav now b w)
      = Inr (JObject [(''year'', JNumber (Some (?y + (?m + ?k) div 12))),
                      (''month'', JNumber (Some ((?m + ?k) mod 12)))])"
    by (simp add: getCurrentMonth_def t')
  show ?thesis
  proof (intro conjI impI)
    assume "data_action b = ''next''"
    then have "?k = 1" by (simp add: nav_step_def)
    then show "getCurrentMonth (click_nav now b w)
              = Inr (JObject
                  [(''year'', JNumber (Some (if ?m = 11 then ?y + 1 else ?y))),
                   (''month'', JNumber (Some (if ?m = 11 then 0 else ?m + 1)))])"
      using cm next_month_carry [OF mrs] by simp
  next
    assume "data_action b = ''prev''"
    then have "?k = - 1" by (simp add: nav_step_def)
    then show "getCurrentMonth (click_nav now b w)
              = Inr (JObject
                  [(''year'', JNumber (Some (if ?m = 0 then ?y - 1 else ?y))),
                   (''month'', JNumber (Some (if ?m = 0 then 11 else ?m - 1)))])"
      using cm prev_month_carry [OF mrs] by simp
  qed
qed

text \<open>
  Witness: constructed at noon of 15 January 2024, a click on next shows February 2024
  and a click on previous shows December 2023.
\<close>

theorem nav_moves_one_month_when_day_fits_witness:
  "getCurrentMonth (click_nav 1705320000000 next_button (on_page 1705320000000 no_options))
     = Inr (JObject [(''year'', JNumber (Some 2024)), (''month'', JNumber (Some 1))])
   \<and> getCurrentMonth (click_nav 1705320000000 prev_button (on_page 1705320000000 no_options))
     = Inr (JObject [(''year'', JNumber (Some 2023)), (''month'', JNumber (Some 11))])"
proof -
  let ?w = "on_page 1705320000000 no_options"
  have r: "ready ?w" by (rule ready_on_page)
  obtain g where g: "view ?w = Some g" "next_button \<in> set (nav g)" "prev_button \<in> set (nav g)"
    using buttons_on_page by blast
  have c: "currentDate ?w = Some (Some 1705320000000)"
    by (simp add: on_page_eq)
  have d: "DateFromTime 1705320000000 \<le> 28" "- 271820 < YearFromTime 1705320000000"
    "YearFromTime 1705320000000 < 275759"
    by (simp_all add: date_2024_01_15)
  show ?thesis
    using nav_moves_one_month_when_day_fits [OF r g(1,2) c d, of 1705320000000]
      nav_moves_one_month_when_day_fits [OF r g(1,3) c d, of 1705320000000]
    by (simp add: next_button_def prev_button_def date_2024_01_15)
qed

subsection \<open>One listener on every element, after every operation\<close>

lemma ready_click_cell:
  assumes "ready w" "view w = Some g" "c \<in> set (cells g)"
  shows "ready (click_cell c w)"
proof -
  obtain opts where o: "options w = Some opts"
    using assms(1) by (auto elim: ready_fields)
  have wc: "wired_cell c"
    using assms by (auto simp: ready_def list_all_iff)
  show ?thesis
  proof (cases "day_selector c")
    case True
    then obtain s where s: "data_date c = Some s" "s \<noteq> []" and one: "click_listeners c = 1"
      using wc by (auto simp: wired_cell_def)
    have "click_cell c w = snd (day_listener c w)"
      by (simp add: click_cell_def one)
    then show ?thesis
      using assms(1) by (simp add: day_listener_ready [OF o s] ready_def split: option.splits)
  next
    case False
    then have "click_listeners c = 0" using wc by (simp add: wired_cell_def)
    then show ?thesis using assms(1) by (simp add: click_cell_no_listener)
  qed
qed

lemma ready_click_nav:
  assumes "ready w" "view w = Some g" "b \<in> set (nav g)"
  shows "ready (click_nav now b w)"
proof -
  obtain el opts cd where f: "container w = Some el" "options w = Some opts" "currentDate w = Some cd"
    using assms(1) by (auto elim: ready_fields)
  have b: "click_nav now b w = snd (nav_listener now (data_action b) w)"
    "data_action b = ''prev'' \<or> data_action b = ''next''"
    using click_nav_ready [OF assms] by simp_all
  show ?thesis
    unfolding b(1) nav_listener_ready [OF f b(2) refl]
    using wired_attached_rendered f by (simp add: ready_def)
qed

text \<open>
  The constructor, when it finds the container, leaves an instance in which every
  navigation button and every day cell of the container carries exactly one click
  listener and no filler cell carries any; \<^verbatim>\<open>setEntryDates\<close>, \<^verbatim>\<open>goToMonth\<close> and the clicks on
  the elements of the grid keep it so: a re-render replaces the elements and
  \<^verbatim>\<open>attachEvents\<close> wires the new ones once.
\<close>

theorem one_listener_per_element:
  "(resolve q c = Inr (Some el) \<longrightarrow>
      fst (JournalCalendar q now c a) = Normal \<and> ready (snd (JournalCalendar q now c a)))
   \<and> (ready w \<longrightarrow>
        fst (setEntryDates now dates w) = Normal \<and> ready (snd (setEntryDates now dates w))
      \<and> fst (goToMonth now y m w) = Normal \<and> ready (snd (goToMonth now y m w))
      \<and> (\<forall>g. view w = Some g \<longrightarrow>
            (\<forall>b \<in> set (nav g). ready (click_nav now b w))
          \<and> (\<forall>x \<in> set (cells g). ready (click_cell x w))))"
proof (intro conjI impI allI ballI)
  assume r: "resolve q c = Inr (Some el)"
  show "fst (JournalCalendar q now c a) = Normal"
    by (simp add: JournalCalendar_found [OF r])
  show "ready (snd (JournalCalendar q now c a))"
    using wired_attached_rendered [of now "defaults a" "Some now"]
    by (simp add: JournalCalendar_found [OF r] ready_def)
next
  assume r: "ready w"
  then obtain el' opts cd where f: "container w = Some el'" "options w = Some opts"
      "currentDate w = Some cd"
    by (auto elim: ready_fields)
  show "fst (setEntryDates now dates w) = Normal"
    by (simp add: setEntryDates_ready [OF f])
  show "ready (snd (setEntryDates now dates w))"
    using wired_attached_rendered f by (simp add: setEntryDates_ready [OF f] ready_def)
  show "fst (goToMonth now y m w) = Normal"
    by (simp add: goToMonth_ready [OF f])
  show "ready (snd (goToMonth now y m w))"
    using wired_attached_rendered f by (simp add: goToMonth_ready [OF f] ready_def)
next
  fix g b
  assume "ready w" "view w = Some g" "b \<in> set (nav g)"
  then show "ready (click_nav now b w)" by (rule ready_click_nav)
next
  fix g x
  assume "ready w" "view w = Some g" "x \<in> set (cells g)"
  then show "ready (click_cell x w)" by (rule ready_click_cell)
qed

theorem one_listener_per_element_witness:
  "resolve page (Selector ''#calendar'') = Inr (Some 0)
   \<and> ready (on_page 1705320000000 no_options)
   \<and> ready (snd (goToMonth 1705320000000 2025 5 (on_page 1705320000000 no_options)))
   \<and> ready (snd (setEntryDates 1705320000000 [''2024-01-15''] (on_page 1705320000000 no_options)))
   \<and> ready (click_nav 1705320000000 next_button (on_page 1705320000000 no_options))"
proof -
  have r: "resolve page (Selector ''#calendar'') = Inr (Some 0)"
    by (simp add: resolve_def page_def)
  obtain g where g: "view (on_page 1705320000000 no_options) = Some g" "next_button \<in> set (nav g)"
    using buttons_on_page by blast
  note t = one_listener_per_element [of page "Selector ''#calendar''" 0 1705320000000 no_options
        "on_page 1705320000000 no_options" "[''2024-01-15'']" 2025 5]
  have a: "ready (on_page 1705320000000 no_options)"
    using t r by (simp add: on_page_def)
  show ?thesis
    using t r a g by auto
qed

end
